theory Spec2Isabelle
  imports Complex_Main "HOL-Library.Multiset"
begin

section \<open>JavaScript values and strings\<close>

text \<open>
  Strings are lists of code points below 256 (\<^typ>\<open>char\<close>); a lone surrogate, on which
  \<^verbatim>\<open>encodeURIComponent\<close> throws, is outside the type. A value of type \<^verbatim>\<open>any\<close> is
  \<^verbatim>\<open>undefined\<close>, \<^verbatim>\<open>null\<close>, a boolean, a number (the integers, which is what
  identifiers, timestamps and quantities in whole units are), a string, an array or an
  object given by its entries in the order of \<^verbatim>\<open>Object.entries\<close>.
\<close>

datatype jsvalue =
    JUndefined
  | JNull
  | JBool bool
  | JNum int
  | JStr string
  | JArr "jsvalue list"
  | JObj "(string \<times> jsvalue) list"

definition nullish :: "jsvalue \<Rightarrow> bool" where
  "nullish v = (v = JUndefined \<or> v = JNull)"

text \<open>Truthiness, as \<^verbatim>\<open>if (v)\<close>, \<^verbatim>\<open>a && b\<close> and \<^verbatim>\<open>c ? x : y\<close> test it.\<close>

fun truthy :: "jsvalue \<Rightarrow> bool" where
  "truthy JUndefined = False"
| "truthy JNull = False"
| "truthy (JBool b) = b"
| "truthy (JNum n) = (n \<noteq> 0)"
| "truthy (JStr s) = (s \<noteq> [])"
| "truthy (JArr xs) = True"
| "truthy (JObj kvs) = True"

text \<open>
  Property access \<^verbatim>\<open>v.k\<close> on a value that is neither \<^verbatim>\<open>null\<close> nor
  \<^verbatim>\<open>undefined\<close> (on those the access throws; the callers below test for it first).
  The keys read by this program (\<^verbatim>\<open>id\<close>, \<^verbatim>\<open>stream\<close>, \<^verbatim>\<open>data\<close>, \<^verbatim>\<open>e\<close>,
  \<^verbatim>\<open>u\<close>, \<^verbatim>\<open>s\<close>, \<^verbatim>\<open>b\<close>, \<^verbatim>\<open>a\<close>) are no properties of a primitive or an array.
\<close>

fun getProp :: "jsvalue \<Rightarrow> string \<Rightarrow> jsvalue" where
  "getProp (JObj kvs) k = (case map_of kvs k of Some v \<Rightarrow> v | None \<Rightarrow> JUndefined)"
| "getProp v k = JUndefined"

definition digitChar :: "nat \<Rightarrow> char" where
  "digitChar d = ''0123456789ABCDEF'' ! d"

function stringOfNat :: "nat \<Rightarrow> string" where
  "stringOfNat n =
     (if n < 10 then [digitChar n] else stringOfNat (n div 10) @ [digitChar (n mod 10)])"
  by pat_completeness auto
termination
  by (relation "measure (\<lambda>n. n)") auto

definition stringOfInt :: "int \<Rightarrow> string" where
  "stringOfInt i = (if i < 0 then CHR ''-'' # stringOfNat (nat (- i)) else stringOfNat (nat i))"

fun join :: "string \<Rightarrow> string list \<Rightarrow> string" where
  "join sep [] = []"
| "join sep [x] = x"
| "join sep (x # y # ys) = x @ sep @ join sep (y # ys)"

text \<open>
  \<^verbatim>\<open>String(value)\<close>: an array is its elements joined by commas, with \<^verbatim>\<open>null\<close> and
  \<^verbatim>\<open>undefined\<close> elements as the empty string; a plain object is
  \<^verbatim>\<open>[object Object]\<close>.
\<close>

fun String :: "jsvalue \<Rightarrow> string" where
  "String JUndefined = ''undefined''"
| "String JNull = ''null''"
| "String (JBool b) = (if b then ''true'' else ''false'')"
| "String (JNum n) = stringOfInt n"
| "String (JStr s) = s"
| "String (JArr xs) = join '','' (map (\<lambda>x. if nullish x then [] else String x) xs)"
| "String (JObj kvs) = ''[object Object]''"

section \<open>HMAC signer: the canonical query string\<close>

text \<open>
  \<^verbatim>\<open>encodeURIComponent\<close>: the unreserved characters (letters, digits and
  \<^verbatim>\<open>- _ . ! ~ * ' ( )\<close>) stand for themselves; every other code point is written as
  its UTF-8 bytes, each as \<^verbatim>\<open>%\<close> and two upper-case hexadecimal digits.
\<close>

definition uriUnreserved :: "char \<Rightarrow> bool" where
  "uriUnreserved c =
     (c \<in> set ''ABCDEFGHIJKLMNOPQRSTUVWXYZabcdefghijklmnopqrstuvwxyz0123456789-_.!~*()''
      \<or> c = CHR 0x27)"

definition utf8Bytes :: "char \<Rightarrow> nat list" where
  "utf8Bytes c =
     (let n = (of_char c :: nat) in if n < 128 then [n] else [192 + n div 64, 128 + n mod 64])"

definition percentByte :: "nat \<Rightarrow> string" where
  "percentByte b = [CHR ''%'', digitChar (b div 16), digitChar (b mod 16)]"

definition encodeChar :: "char \<Rightarrow> string" where
  "encodeChar c = (if uriUnreserved c then [c] else concat (map percentByte (utf8Bytes c)))"

definition encodeURIComponent :: "string \<Rightarrow> string" where
  "encodeURIComponent s = concat (map encodeChar s)"

text \<open>The characters an encoded component is made of.\<close>

definition querySafe :: "char \<Rightarrow> bool" where
  "querySafe c = (uriUnreserved c \<or> c = CHR ''%'')"

text \<open>
  \<^verbatim>\<open>Array.prototype.sort(compareFn)\<close>: a stable sort by a comparator that answers a
  negative number, zero or a positive number. With a consistent comparator the result
  is the one of this insertion sort.
\<close>

fun insertBy :: "('a \<Rightarrow> 'a \<Rightarrow> int) \<Rightarrow> 'a \<Rightarrow> 'a list \<Rightarrow> 'a list" where
  "insertBy cmp x [] = [x]"
| "insertBy cmp x (y # ys) = (if cmp x y \<le> 0 then x # y # ys else y # insertBy cmp x ys)"

definition sortBy :: "('a \<Rightarrow> 'a \<Rightarrow> int) \<Rightarrow> 'a list \<Rightarrow> 'a list" where
  "sortBy cmp xs = foldr (insertBy cmp) xs []"

text \<open>
  What \<^verbatim>\<open>sort\<close> asks of its comparator: any two elements are comparable, and the
  order it reports is transitive.
\<close>

definition consistentComparator :: "('a \<Rightarrow> 'a \<Rightarrow> int) \<Rightarrow> bool" where
  "consistentComparator cmp =
     ((\<forall>a b. cmp a b \<le> 0 \<or> cmp b a \<le> 0) \<and>
      (\<forall>a b c. cmp a b \<le> 0 \<and> cmp b c \<le> 0 \<longrightarrow> cmp a c \<le> 0))"

text \<open>
  The filter of \<^verbatim>\<open>createQueryString\<close>:
  \<^verbatim>\<open>value !== undefined && value !== null && value !== ''\<close>.
\<close>

definition keptEntry :: "string \<times> jsvalue \<Rightarrow> bool" where
  "keptEntry kv = (snd kv \<noteq> JUndefined \<and> snd kv \<noteq> JNull \<and> snd kv \<noteq> JStr [])"

text \<open>
  The entries after \<^verbatim>\<open>.filter(...)\<close> and \<^verbatim>\<open>.sort(([a], [b]) => a.localeCompare(b))\<close>.
  \<^verbatim>\<open>String.prototype.localeCompare\<close> belongs to the runtime (its order is the
  collation of the host's locale), so it is the parameter \<open>localeCompare\<close>.
\<close>

definition sortedEntries ::
  "(string \<Rightarrow> string \<Rightarrow> int) \<Rightarrow> (string \<times> jsvalue) list \<Rightarrow> (string \<times> jsvalue) list" where
  "sortedEntries localeCompare params =
     sortBy (\<lambda>a b. localeCompare (fst a) (fst b)) (filter keptEntry params)"

definition encodeEntry :: "string \<times> jsvalue \<Rightarrow> string" where
  "encodeEntry kv = encodeURIComponent (fst kv) @ ''='' @ encodeURIComponent (String (snd kv))"

text \<open>
  \<^verbatim>\<open>SignatureAuth.createQueryString(params)\<close>, on the entries of \<^verbatim>\<open>params\<close>.
\<close>

definition createQueryString ::
  "(string \<Rightarrow> string \<Rightarrow> int) \<Rightarrow> (string \<times> jsvalue) list \<Rightarrow> string" where
  "createQueryString localeCompare params =
     join ''&'' (map encodeEntry (sortedEntries localeCompare params))"

text \<open>
  Comparison of two sequences of weights, first difference first, a proper prefix
  before its extensions.
\<close>

fun lexCompare :: "nat list \<Rightarrow> nat list \<Rightarrow> int" where
  "lexCompare [] [] = 0"
| "lexCompare [] (y # ys) = - 1"
| "lexCompare (x # xs) [] = 1"
| "lexCompare (x # xs) (y # ys) =
     (if x < y then - 1 else if y < x then 1 else lexCompare xs ys)"

text \<open>
  The order the spec names: raw comparison of the strings, code unit by code unit (the
  order of \<^verbatim>\<open><\<close> on strings, and of \<^verbatim>\<open>sort()\<close> without a comparator).
\<close>

definition rawCompare :: "string \<Rightarrow> string \<Rightarrow> int" where
  "rawCompare a b = lexCompare (map of_char a) (map of_char b)"

text \<open>
  \<^verbatim>\<open>a.localeCompare(b)\<close> as V8 computes it with ICU in the default locales, on
  strings of ASCII letters and digits: the strings are compared without regard to case
  first, digits before letters; strings equal up to case are told apart by the first
  position where the case differs, the lower-case letter first. (On other characters
  the collation has an order of its own, not given here: the weights below are then the
  code points.)
\<close>

definition primaryWeight :: "char \<Rightarrow> nat" where
  "primaryWeight c =
     (let n = (of_char c :: nat) in if 65 \<le> n \<and> n \<le> 90 then n + 32 else n)"

definition caseWeight :: "char \<Rightarrow> nat" where
  "caseWeight c = (let n = (of_char c :: nat) in if 65 \<le> n \<and> n \<le> 90 then 1 else 0)"

definition localeCompareAlnum :: "string \<Rightarrow> string \<Rightarrow> int" where
  "localeCompareAlnum a b =
     (let p = lexCompare (map primaryWeight a) (map primaryWeight b)
      in if p \<noteq> 0 then p else lexCompare (map caseWeight a) (map caseWeight b))"

section \<open>Web3 signature engine: the nonce generator\<close>

text \<open>
  \<^verbatim>\<open>TIME_CONSTANTS.MICROSECONDS_IN_MILLISECOND\<close> of \<^verbatim>\<open>config/constants.ts\<close>.
\<close>

definition MICROSECONDS_IN_MILLISECOND :: int where
  "MICROSECONDS_IN_MILLISECOND = 1000"

text \<open>
  \<^verbatim>\<open>Web3SignatureAuth.generateNonce\<close>:
  \<^verbatim>\<open>return Math.trunc(Date.now() * TIME_CONSTANTS.MICROSECONDS_IN_MILLISECOND)\<close>.
  The reading of \<^verbatim>\<open>Date.now()\<close> is the argument: a whole number of milliseconds,
  so \<^verbatim>\<open>Math.trunc\<close> leaves the product as it is (the product of the doubles is
  exact for every reading before the year 2255, where it stays below \<open>2 ^ 53\<close>). The
  method keeps no state: no field of the class records the last nonce handed out.
\<close>

definition generateNonce :: "int \<Rightarrow> int" where
  "generateNonce now = now * MICROSECONDS_IN_MILLISECOND"

text \<open>
  A run of calls of one signer, given by the clock reading of each call in order.
\<close>

definition nonces :: "int list \<Rightarrow> int list" where
  "nonces readings = map generateNonce readings"

section \<open>Web3 signature engine: the static validators\<close>

text \<open>
  \<^verbatim>\<open>VALIDATION_CONSTANTS.ETHEREUM_ADDRESS_LENGTH\<close> and
  \<^verbatim>\<open>VALIDATION_CONSTANTS.PRIVATE_KEY_LENGTH\<close>.
\<close>

definition ETHEREUM_ADDRESS_LENGTH :: nat where
  "ETHEREUM_ADDRESS_LENGTH = 40"

definition PRIVATE_KEY_LENGTH :: nat where
  "PRIVATE_KEY_LENGTH = 64"

definition isHexChar :: "char \<Rightarrow> bool" where
  "isHexChar c = (c \<in> set ''abcdefABCDEF0123456789'')"

text \<open>
  \<^verbatim>\<open>new RegExp(`^<lit>[a-fA-F0-9]{n}`).test(s)\<close>: the pattern is anchored at the start
  only, so it matches when \<open>s\<close> begins with \<open>lit\<close> and \<open>n\<close> hexadecimal characters,
  whatever follows them.
\<close>

definition testHexPrefix :: "string \<Rightarrow> nat \<Rightarrow> string \<Rightarrow> bool" where
  "testHexPrefix lit n s =
     (take (length lit) s = lit \<and>
      n \<le> length (drop (length lit) s) \<and>
      list_all isHexChar (take n (drop (length lit) s)))"

text \<open>
  \<^verbatim>\<open>Web3SignatureAuth.validateAddresses\<close>:
  \<^verbatim>\<open>addressRegex.test(userAddress) && addressRegex.test(signerAddress)\<close> with
  \<^verbatim>\<open>^0x[a-fA-F0-9]{40}\<close>.
\<close>

definition validateAddresses :: "string \<Rightarrow> string \<Rightarrow> bool" where
  "validateAddresses userAddress signerAddress =
     (testHexPrefix ''0x'' ETHEREUM_ADDRESS_LENGTH userAddress \<and>
      testHexPrefix ''0x'' ETHEREUM_ADDRESS_LENGTH signerAddress)"

text \<open>
  \<^verbatim>\<open>Web3SignatureAuth.validatePrivateKey\<close>:
  \<^verbatim>\<open>withoutPrefixRegex.test(privateKey) || withPrefixRegex.test(privateKey)\<close> with
  \<^verbatim>\<open>^[a-fA-F0-9]{64}\<close> and \<^verbatim>\<open>^0x[a-fA-F0-9]{64}\<close>.
\<close>

definition validatePrivateKey :: "string \<Rightarrow> bool" where
  "validatePrivateKey privateKey =
     (testHexPrefix [] PRIVATE_KEY_LENGTH privateKey \<or>
      testHexPrefix ''0x'' PRIVATE_KEY_LENGTH privateKey)"

text \<open>
  The shape the validators are documented to accept: \<open>lit\<close> followed by exactly \<open>n\<close>
  hexadecimal characters and nothing else (the pattern with \<^verbatim>\<open>$\<close> at its end, as
  \<^verbatim>\<open>/^0x[0-9a-fA-F]{64}$/\<close> in \<^verbatim>\<open>signHash\<close> of the same file has it).
\<close>

definition exactHex :: "string \<Rightarrow> nat \<Rightarrow> string \<Rightarrow> bool" where
  "exactHex lit n s =
     (take (length lit) s = lit \<and>
      length (drop (length lit) s) = n \<and>
      list_all isHexChar (drop (length lit) s))"

section \<open>Rate limiter\<close>

text \<open>
  The class \<^verbatim>\<open>RateLimiter\<close> of \<^verbatim>\<open>utils/http.ts\<close>. Times are milliseconds; each
  method that reads \<^verbatim>\<open>Date.now()\<close> takes the reading as its first argument.
\<close>

record RateLimiter =
  requests :: "int list"
  windowMs :: int
  maxRequests :: int

definition newRateLimiter :: "int \<Rightarrow> int \<Rightarrow> RateLimiter" where
  "newRateLimiter maxReq window = \<lparr>requests = [], windowMs = window, maxRequests = maxReq\<rparr>"

definition cleanOldRequests :: "int \<Rightarrow> RateLimiter \<Rightarrow> RateLimiter" where
  "cleanOldRequests now r =
     (let cutoff = now - windowMs r
      in r\<lparr>requests := filter (\<lambda>timestamp. timestamp > cutoff) (requests r)\<rparr>)"

definition canMakeRequest :: "int \<Rightarrow> RateLimiter \<Rightarrow> bool \<times> RateLimiter" where
  "canMakeRequest now r =
     (let r' = cleanOldRequests now r
      in (int (length (requests r')) < maxRequests r', r'))"

definition recordRequest :: "int \<Rightarrow> RateLimiter \<Rightarrow> RateLimiter" where
  "recordRequest now r =
     (let r' = cleanOldRequests now r in r'\<lparr>requests := requests r' @ [now]\<rparr>)"

text \<open>\<^verbatim>\<open>Math.min(...xs)\<close> on a list that is not empty.\<close>

definition minOf :: "int list \<Rightarrow> int" where
  "minOf xs = fold min (tl xs) (hd xs)"

definition getTimeUntilReset :: "int \<Rightarrow> RateLimiter \<Rightarrow> int" where
  "getTimeUntilReset now r =
     (if length (requests r) = 0 then 0
      else let oldestRequest = minOf (requests r);
               resetTime = oldestRequest + windowMs r
           in max 0 (resetTime - now))"

text \<open>
  \<^verbatim>\<open>waitUntilReady\<close>: the time the caller is suspended for (0 when it returns at once)
  and the state. \<open>now\<close> is the reading inside \<^verbatim>\<open>canMakeRequest\<close>, \<open>now'\<close> the one
  inside \<^verbatim>\<open>getTimeUntilReset\<close>.
\<close>

definition waitUntilReady :: "int \<Rightarrow> int \<Rightarrow> RateLimiter \<Rightarrow> int \<times> RateLimiter" where
  "waitUntilReady now now' r =
     (case canMakeRequest now r of
        (ready, r') \<Rightarrow>
          if ready then (0, r')
          else let waitTime = getTimeUntilReset now' r'
               in (if waitTime > 0 then waitTime else 0, r'))"

definition reset :: "RateLimiter \<Rightarrow> RateLimiter" where
  "reset r = r\<lparr>requests := []\<rparr>"

text \<open>
  A history of calls on one limiter, each with the clock reading at which it is made, and
  the state it leaves.
\<close>

datatype RateLimiterCall =
  CanMakeRequest | RecordRequest | GetTimeUntilReset | WaitUntilReady | Reset

fun call :: "int \<Rightarrow> RateLimiterCall \<Rightarrow> RateLimiter \<Rightarrow> RateLimiter" where
  "call now CanMakeRequest r = snd (canMakeRequest now r)"
| "call now RecordRequest r = recordRequest now r"
| "call now GetTimeUntilReset r = r"
| "call now WaitUntilReady r = snd (waitUntilReady now now r)"
| "call now Reset r = reset r"

fun calls :: "(int \<times> RateLimiterCall) list \<Rightarrow> RateLimiter \<Rightarrow> RateLimiter" where
  "calls [] r = r"
| "calls ((now, c) # cs) r = calls cs (call now c r)"

text \<open>
  A history in which only admitted requests are recorded: every \<^verbatim>\<open>recordRequest()\<close>
  is made at a moment when \<^verbatim>\<open>canMakeRequest()\<close> answers true.
\<close>

fun admitted :: "(int \<times> RateLimiterCall) list \<Rightarrow> RateLimiter \<Rightarrow> bool" where
  "admitted [] r = True"
| "admitted ((now, c) # cs) r =
     ((if c = RecordRequest then fst (canMakeRequest now r) else True) \<and>
      admitted cs (call now c r))"

text \<open>The number of recorded timestamps inside the window that ends at \<open>now\<close>.\<close>

definition inWindow :: "int \<Rightarrow> RateLimiter \<Rightarrow> nat" where
  "inWindow now r = length (filter (\<lambda>timestamp. timestamp > now - windowMs r) (requests r))"

text \<open>The limiter holds no more timestamps than \<^verbatim>\<open>maxRequests\<close>.\<close>

definition withinLimit :: "RateLimiter \<Rightarrow> bool" where
  "withinLimit r = (int (length (requests r)) \<le> maxRequests r)"

section \<open>Errors\<close>

text \<open>
  The error classes of \<^verbatim>\<open>errors/errors.ts\<close> with the fields this development
  reads: the status code and the \<^verbatim>\<open>retry-after\<close> header of an
  \<^verbatim>\<open>ApiResponseError\<close> (\<^verbatim>\<open>RateLimitError\<close> extends it), the message and code of a
  \<^verbatim>\<open>WebSocketError\<close>. \<open>OtherError\<close> is every other thrown value (\<^verbatim>\<open>AuthError\<close>,
  \<^verbatim>\<open>ValidationError\<close>, \<^verbatim>\<open>ConfigError\<close>, a plain \<^verbatim>\<open>Error\<close>).
\<close>

datatype error =
    ApiResponseError int "string option"
  | RateLimitError int "string option"
  | NetworkError
  | WebSocketError string "int option"
  | OtherError

definition BAD_REQUEST :: int where "BAD_REQUEST = 400"
definition TOO_MANY_REQUESTS :: int where "TOO_MANY_REQUESTS = 429"
definition IM_A_TEAPOT :: int where "IM_A_TEAPOT = 418"
definition INTERNAL_SERVER_ERROR :: int where "INTERNAL_SERVER_ERROR = 500"
definition POLICY_VIOLATION :: int where "POLICY_VIOLATION = 1008"
definition NORMAL_CLOSURE :: int where "NORMAL_CLOSURE = 1000"
definition MILLISECONDS_IN_SECOND :: int where "MILLISECONDS_IN_SECOND = 1000"

definition isClientError :: "int \<Rightarrow> bool" where
  "isClientError statusCode = (statusCode \<ge> BAD_REQUEST \<and> statusCode < INTERNAL_SERVER_ERROR)"

definition isServerError :: "int \<Rightarrow> bool" where
  "isServerError statusCode = (statusCode \<ge> INTERNAL_SERVER_ERROR)"

definition isRateLimitError :: "int \<Rightarrow> bool" where
  "isRateLimitError statusCode = (statusCode = TOO_MANY_REQUESTS \<or> statusCode = IM_A_TEAPOT)"

text \<open>
  White space as \<^verbatim>\<open>parseInt\<close> and \<^verbatim>\<open>trim\<close> skip it, among the code points below
  256: tab, line feed, vertical tab, form feed, carriage return, space, no-break space.
\<close>

definition isWhiteSpace :: "char \<Rightarrow> bool" where
  "isWhiteSpace c = ((of_char c :: nat) \<in> {9, 10, 11, 12, 13, 32, 160})"

definition isDigit :: "char \<Rightarrow> bool" where
  "isDigit c = (48 \<le> (of_char c :: nat) \<and> (of_char c :: nat) \<le> 57)"

definition digitsValue :: "string \<Rightarrow> nat" where
  "digitsValue ds = foldl (\<lambda>acc c. 10 * acc + ((of_char c :: nat) - 48)) 0 ds"

text \<open>
  \<^verbatim>\<open>parseInt(s, 10)\<close>: leading white space, an optional sign, then the longest run of
  decimal digits; \<open>None\<close> is \<^verbatim>\<open>NaN\<close> (no digit there).
\<close>

definition parseInt :: "string \<Rightarrow> int option" where
  "parseInt s =
     (let t = dropWhile isWhiteSpace s;
          negative = (t \<noteq> [] \<and> hd t = CHR ''-'');
          u = (if t \<noteq> [] \<and> (hd t = CHR ''-'' \<or> hd t = CHR ''+'') then tl t else t);
          ds = takeWhile isDigit u
      in if ds = [] then None
         else Some (if negative then - int (digitsValue ds) else int (digitsValue ds)))"

text \<open>
  \<^verbatim>\<open>ApiResponseError.getRetryAfter\<close>, on the \<^verbatim>\<open>retry-after\<close> header (\<open>None\<close> when
  the response has none):
  \<^verbatim>\<open>retryAfter ? parseInt(retryAfter, 10) : undefined\<close>. The outer \<open>None\<close> is
  \<^verbatim>\<open>undefined\<close>, \<open>Some None\<close> is \<^verbatim>\<open>NaN\<close>.
\<close>

definition getRetryAfter :: "string option \<Rightarrow> int option option" where
  "getRetryAfter header =
     (case header of
        None \<Rightarrow> None
      | Some retryAfter \<Rightarrow> if retryAfter \<noteq> [] then Some (parseInt retryAfter) else None)"

text \<open>
  \<^verbatim>\<open>ErrorFactory.fromHttpResponse\<close> (the message, parsed from the body, is not kept).
\<close>

definition fromHttpResponse :: "int \<Rightarrow> string option \<Rightarrow> error" where
  "fromHttpResponse statusCode header =
     (if statusCode = TOO_MANY_REQUESTS \<or> statusCode = IM_A_TEAPOT
      then RateLimitError statusCode header
      else ApiResponseError statusCode header)"

fun isRetryableError :: "error \<Rightarrow> bool" where
  "isRetryableError (ApiResponseError statusCode header) =
     (if isClientError statusCode \<and> \<not> isRateLimitError statusCode then False
      else isServerError statusCode \<or> isRateLimitError statusCode)"
| "isRetryableError (RateLimitError statusCode header) =
     (if isClientError statusCode \<and> \<not> isRateLimitError statusCode then False
      else isServerError statusCode \<or> isRateLimitError statusCode)"
| "isRetryableError NetworkError = True"
| "isRetryableError (WebSocketError message code) = (code \<noteq> Some POLICY_VIOLATION)"
| "isRetryableError OtherError = False"

text \<open>
  \<^verbatim>\<open>getRetryDelay\<close>: \<^verbatim>\<open>error instanceof RateLimitError && error.retryAfter\<close> holds
  when the field is a number other than 0 and \<^verbatim>\<open>NaN\<close>.
\<close>

fun getRetryDelay :: "error \<Rightarrow> real \<Rightarrow> real" where
  "getRetryDelay (RateLimitError statusCode header) defaultDelay =
     (case getRetryAfter header of
        Some (Some retryAfter) \<Rightarrow>
          if retryAfter \<noteq> 0 then real_of_int (retryAfter * MILLISECONDS_IN_SECOND)
          else defaultDelay
      | _ \<Rightarrow> defaultDelay)"
| "getRetryDelay e defaultDelay = defaultDelay"

section \<open>Transport: the retry loop\<close>

record RetryConfig =
  maxRetries :: int
  retryDelay :: real
  backoffMultiplier :: real

text \<open>
  What can be thrown inside the \<^verbatim>\<open>try\<close> of \<^verbatim>\<open>executeRequest\<close>, by
  \<^verbatim>\<open>fetch\<close> or by reading the body of its response: the abort of the timeout, a
  \<^verbatim>\<open>TypeError\<close> whose message names \<^verbatim>\<open>fetch\<close>, or another value (the
  \<^verbatim>\<open>SyntaxError\<close> of \<^verbatim>\<open>response.json()\<close> on a body that is not JSON is
  one).
\<close>

datatype thrown = AbortError | FetchTypeError | OtherThrown

text \<open>
  What one call of \<^verbatim>\<open>fetch\<close> comes to. \<open>Response status header body\<close>: a
  response with that status and \<^verbatim>\<open>retry-after\<close> header; \<open>body\<close> is what reading
  its body comes to (\<^verbatim>\<open>response.text()\<close> when the response is not \<^verbatim>\<open>ok\<close>,
  else \<^verbatim>\<open>response.json()\<close> or \<^verbatim>\<open>response.text()\<close> by its content type):
  \<open>None\<close> when it is read, \<open>Some t\<close> when the read throws \<open>t\<close>.
  \<open>Rejected t\<close>: there is no response, \<^verbatim>\<open>fetch\<close> (or building the request
  before it) throws \<open>t\<close>.
\<close>

datatype fetchOutcome =
    Response int "string option" "thrown option"
  | Rejected thrown

text \<open>
  The \<^verbatim>\<open>catch\<close> of \<^verbatim>\<open>executeRequest\<close>: an abort and a \<^verbatim>\<open>fetch\<close>
  failure become a \<^verbatim>\<open>NetworkError\<close>, anything else is thrown again as it is.
\<close>

fun caught :: "thrown \<Rightarrow> error" where
  "caught AbortError = NetworkError"
| "caught FetchTypeError = NetworkError"
| "caught OtherThrown = OtherError"

text \<open>
  \<^verbatim>\<open>HttpClient.executeRequest\<close>: \<open>Inr\<close> the status of a response that is
  \<^verbatim>\<open>ok\<close> (200 to 299) and whose body was read, \<open>Inl\<close> the error thrown. The
  error made from a response that is not \<^verbatim>\<open>ok\<close> passes the \<^verbatim>\<open>catch\<close>
  unchanged.
\<close>

fun executeRequest :: "fetchOutcome \<Rightarrow> error + int" where
  "executeRequest (Response status header body) =
     (if \<not> (200 \<le> status \<and> status \<le> 299) then
        (case body of
           None \<Rightarrow> Inl (fromHttpResponse status header)
         | Some t \<Rightarrow> Inl (caught t))
      else
        (case body of
           None \<Rightarrow> Inr status
         | Some t \<Rightarrow> Inl (caught t)))"
| "executeRequest (Rejected t) = Inl (caught t)"

text \<open>
  The outcome of \<^verbatim>\<open>HttpClient.request\<close>: what it resolves or rejects with, how many
  times it went round the loop again, and the delays it slept, in order. Delays are
  real numbers, which stand for the doubles of \<^verbatim>\<open>retryDelay * Math.pow(...)\<close>.
\<close>

record RequestRun =
  outcome :: "error + int"
  retries :: nat
  sleeps :: "real list"

text \<open>
  The loop of \<^verbatim>\<open>HttpClient.request\<close>. \<open>net k\<close> is what the \<open>k\<close>-th call of
  \<^verbatim>\<open>fetch\<close> comes to (counted from 0). \<open>lastError\<close> starts as \<open>None\<close>
  (\<^verbatim>\<open>null\<close>); leaving the loop with it still \<^verbatim>\<open>null\<close> throws the plain
  \<^verbatim>\<open>Error('Unknown error occurred during request')\<close>.
\<close>

function requestLoop ::
  "RetryConfig \<Rightarrow> (nat \<Rightarrow> fetchOutcome) \<Rightarrow> nat \<Rightarrow> error option \<Rightarrow> real list \<Rightarrow> RequestRun" where
  "requestLoop cfg net attempt lastError slept =
     (if int attempt \<le> maxRetries cfg then
        (case executeRequest (net attempt) of
           Inr response \<Rightarrow> \<lparr>outcome = Inr response, retries = attempt, sleeps = slept\<rparr>
         | Inl e \<Rightarrow>
             if int attempt = maxRetries cfg \<or> \<not> isRetryableError e
             then \<lparr>outcome = Inl e, retries = attempt, sleeps = slept\<rparr>
             else
               let delay = getRetryDelay e (retryDelay cfg * backoffMultiplier cfg ^ attempt)
               in requestLoop cfg net (attempt + 1) (Some e) (slept @ [delay]))
      else \<lparr>outcome = Inl (case lastError of Some e \<Rightarrow> e | None \<Rightarrow> OtherError),
             retries = attempt, sleeps = slept\<rparr>)"
  by pat_completeness auto
termination
  by (relation "measure (\<lambda>(cfg, net, attempt, lastError, slept). nat (maxRetries cfg + 1 - int attempt))")
    auto

declare requestLoop.simps [simp del]

definition request :: "RetryConfig \<Rightarrow> (nat \<Rightarrow> fetchOutcome) \<Rightarrow> RequestRun" where
  "request cfg net = requestLoop cfg net 0 None []"

section \<open>Stream connection state machine\<close>

text \<open>\<^verbatim>\<open>WS_CONSTANTS.MAX_SUBSCRIPTIONS\<close> of \<^verbatim>\<open>config/constants.ts\<close>.\<close>

definition MAX_SUBSCRIPTIONS :: nat where
  "MAX_SUBSCRIPTIONS = 1024"

datatype WebSocketState = CONNECTING | OPEN | CLOSING | CLOSED

datatype WebSocketMethod =
  SUBSCRIBE | UNSUBSCRIBE | LIST_SUBSCRIPTIONS | SET_PROPERTY | GET_PROPERTY

text \<open>The request written to the socket: \<^verbatim>\<open>{ method, params?, id }\<close>.\<close>

record WebSocketRequest =
  req_method :: WebSocketMethod
  req_params :: "string list option"
  req_id :: nat

record WebSocketConfig =
  reconnect :: bool
  reconnectInterval :: int
  maxReconnectAttempts :: int
  pingInterval :: int
  pongTimeout :: int

text \<open>
  The defaults the constructor fills in: \<^verbatim>\<open>reconnect: true\<close> and
  \<^verbatim>\<open>WS_CONSTANTS.RECONNECT_INTERVAL\<close>, \<^verbatim>\<open>MAX_RECONNECT_ATTEMPTS\<close>,
  \<^verbatim>\<open>PING_INTERVAL\<close>, \<^verbatim>\<open>PONG_TIMEOUT\<close>.
\<close>

definition defaultConfig :: WebSocketConfig where
  "defaultConfig =
     \<lparr>reconnect = True, reconnectInterval = 5000, maxReconnectAttempts = 5,
      pingInterval = 180000, pongTimeout = 600000\<rparr>"

text \<open>The callbacks an \<^verbatim>\<open>eventHandlers\<close> object may carry.\<close>

datatype handler =
    onOpen | onClose | onError
  | onAggTrade | onTrade | onKline | onMiniTicker | onTicker | onBookTicker
  | onDepthUpdate | onAccountUpdate | onExecutionReport
  | onMarkPrice | onLiquidation | onOrderUpdate | onAccountConfigUpdate

datatype payload =
    NoArgs
  | Data jsvalue
  | Err error
  | Closed int string

text \<open>
  What the client does to the world, in order: a call of a callback of
  \<^verbatim>\<open>eventHandlers\<close>, an event emitted on the client and delivered by the emitter to
  the listeners of that event (there may be none), a socket created, a frame written to
  the socket, the socket closed. Callbacks and listeners are taken to return normally.
\<close>

datatype effect =
    Callback handler payload
  | Emit string payload
  | SocketNew
  | SocketSend WebSocketRequest
  | SocketClose int string

text \<open>
  The fields of \<^verbatim>\<open>AsterWebSocketClient\<close>. \<open>ws\<close> tells whether \<^verbatim>\<open>this.ws\<close> is set.
  \<open>subscriptions\<close> is the \<^verbatim>\<open>Set<string>\<close> in insertion order. A timer field tells
  whether its timer is pending (\<open>reconnectTimeout\<close> with the delay it was set for): a
  timer that has fired is not, as clearing it has no effect. \<open>eventHandlers\<close> lists the
  callbacks that are defined. \<open>listeners\<close> is the part of the inherited
  \<^verbatim>\<open>EventEmitter\<close> this development reads: the names of the events for which a
  listener was registered with \<^verbatim>\<open>on\<close>; the class itself registers none.
  \<open>effects\<close> is the trace of what was done so far.
\<close>

record Client =
  ws :: bool
  config :: WebSocketConfig
  state :: WebSocketState
  subscriptions :: "string list"
  requestId :: nat
  pingIntervalTimer :: bool
  pongTimeoutTimer :: bool
  reconnectTimeout :: "int option"
  reconnectAttempts :: nat
  eventHandlers :: "handler list"
  listeners :: "string list"
  effects :: "effect list"

definition newClient :: "WebSocketConfig \<Rightarrow> handler list \<Rightarrow> Client" where
  "newClient cfg handlers =
     \<lparr>ws = False, config = cfg, state = CLOSED, subscriptions = [], requestId = 1,
      pingIntervalTimer = False, pongTimeoutTimer = False, reconnectTimeout = None,
      reconnectAttempts = 0, eventHandlers = handlers, listeners = [], effects = []\<rparr>"

text \<open>\<^verbatim>\<open>client.on(name, listener)\<close>, inherited from \<^verbatim>\<open>EventEmitter\<close>.\<close>

definition on :: "string \<Rightarrow> Client \<Rightarrow> Client" where
  "on name c = c\<lparr>listeners := listeners c @ [name]\<rparr>"

text \<open>\<^verbatim>\<open>this.handlersAs<...>().h?.(p)\<close>: the callback is called if it is defined.\<close>

definition callHandler :: "handler \<Rightarrow> payload \<Rightarrow> Client \<Rightarrow> Client" where
  "callHandler h p c =
     (if h \<in> set (eventHandlers c) then c\<lparr>effects := effects c @ [Callback h p]\<rparr> else c)"

text \<open>
  \<^verbatim>\<open>this.emit(name, ...)\<close> of \<^verbatim>\<open>EventEmitter\<close> has two outcomes. When the
  event is \<^verbatim>\<open>error\<close> and no listener is registered for it, it throws its
  argument: \<open>unhandledError\<close>. In every other case it delivers the event to the
  listeners and returns: \<open>emit\<close>. The class emits \<^verbatim>\<open>error\<close> in
  \<^verbatim>\<open>handleError\<close> only, which makes the test; the events emitted elsewhere have
  other names.
\<close>

definition unhandledError :: "string \<Rightarrow> Client \<Rightarrow> bool" where
  "unhandledError name c = (name = ''error'' \<and> ''error'' \<notin> set (listeners c))"

definition emit :: "string \<Rightarrow> payload \<Rightarrow> Client \<Rightarrow> Client" where
  "emit name p c = c\<lparr>effects := effects c @ [Emit name p]\<rparr>"

definition clearPongTimeout :: "Client \<Rightarrow> Client" where
  "clearPongTimeout c = c\<lparr>pongTimeoutTimer := False\<rparr>"

definition clearTimers :: "Client \<Rightarrow> Client" where
  "clearTimers c = (clearPongTimeout (c\<lparr>pingIntervalTimer := False\<rparr>))\<lparr>reconnectTimeout := None\<rparr>"

definition startPingInterval :: "Client \<Rightarrow> Client" where
  "startPingInterval c = c\<lparr>pingIntervalTimer := True\<rparr>"

definition isConnected :: "Client \<Rightarrow> bool" where
  "isConnected c = (state c = OPEN)"

text \<open>
  \<^verbatim>\<open>connect()\<close> up to the point where it waits for the socket: nothing when the state
  is \<^verbatim>\<open>OPEN\<close> or \<^verbatim>\<open>CONNECTING\<close>, else a new socket in state \<^verbatim>\<open>CONNECTING\<close>.
\<close>

definition connect :: "Client \<Rightarrow> Client" where
  "connect c =
     (if state c = OPEN \<or> state c = CONNECTING then c
      else c\<lparr>state := CONNECTING, ws := True, effects := effects c @ [SocketNew]\<rparr>)"

text \<open>The listener of the socket's \<^verbatim>\<open>open\<close> event.\<close>

definition onSocketOpen :: "Client \<Rightarrow> Client" where
  "onSocketOpen c =
     emit ''open'' NoArgs
       (callHandler onOpen NoArgs
         (startPingInterval (c\<lparr>state := OPEN, reconnectAttempts := 0\<rparr>)))"

text \<open>
  \<^verbatim>\<open>handleError\<close>: the error is wrapped by \<^verbatim>\<open>ErrorFactory.fromNetworkError\<close>, given
  to \<^verbatim>\<open>onError\<close> and emitted as \<^verbatim>\<open>error\<close>. \<open>Inl\<close> is the error thrown out
  of \<^verbatim>\<open>handleError\<close> by \<^verbatim>\<open>emit\<close>, after the callback was called.
\<close>

definition handleError :: "Client \<Rightarrow> (error + unit) \<times> Client" where
  "handleError c =
     (let c1 = callHandler onError (Err NetworkError) c
      in if unhandledError ''error'' c1 then (Inl NetworkError, c1)
         else (Inr (), emit ''error'' (Err NetworkError) c1))"

definition scheduleReconnect :: "Client \<Rightarrow> Client" where
  "scheduleReconnect c =
     c\<lparr>reconnectAttempts := reconnectAttempts c + 1,
       reconnectTimeout := Some (reconnectInterval (config c))\<rparr>"

text \<open>\<^verbatim>\<open>handleClose(code, reason)\<close>, the listener of the socket's \<^verbatim>\<open>close\<close> event.\<close>

definition handleClose :: "int \<Rightarrow> string \<Rightarrow> Client \<Rightarrow> Client" where
  "handleClose code reason c =
     (let c1 = clearTimers (c\<lparr>state := CLOSED\<rparr>);
          c2 = emit ''close'' (Closed code reason) (callHandler onClose (Closed code reason) c1)
      in if reconnect (config c2) \<and> int (reconnectAttempts c2) < maxReconnectAttempts (config c2)
         then scheduleReconnect c2 else c2)"

text \<open>\<^verbatim>\<open>disconnect()\<close>.\<close>

definition disconnect :: "Client \<Rightarrow> Client" where
  "disconnect c =
     (let c1 = clearTimers (c\<lparr>config := (config c)\<lparr>reconnect := False\<rparr>\<rparr>)
      in if ws c1 \<and> state c1 = OPEN
         then c1\<lparr>state := CLOSING,
                 effects := effects c1 @ [SocketClose NORMAL_CLOSURE ''Client disconnect'']\<rparr>
         else c1\<lparr>state := CLOSED\<rparr>)"

text \<open>
  What comes back for a request: a response with the request's id and a result, one
  with an \<^verbatim>\<open>error\<close> object (\<^verbatim>\<open>msg\<close>, \<^verbatim>\<open>code\<close>), or nothing before the request
  timeout.
\<close>

datatype reply =
    Result jsvalue
  | ErrorReply string int
  | NoReply

text \<open>
  \<^verbatim>\<open>sendRequest(method, params)\<close>: the check and the send happen when it is called;
  the promise then settles by the reply. The reply is taken to arrive before anything
  else happens to the client.
\<close>

definition sendRequest ::
  "WebSocketMethod \<Rightarrow> string list option \<Rightarrow> reply \<Rightarrow> Client \<Rightarrow> (error + jsvalue) \<times> Client" where
  "sendRequest m ps r c =
     (if \<not> isConnected c then (Inl (WebSocketError ''WebSocket is not connected'' None), c)
      else
        let req = \<lparr>req_method = m, req_params = ps, req_id = requestId c\<rparr>;
            c1 = c\<lparr>requestId := requestId c + 1\<rparr>;
            c2 = (if ws c1 then c1\<lparr>effects := effects c1 @ [SocketSend req]\<rparr> else c1)
        in case r of
             Result v \<Rightarrow> (Inr v, c2)
           | ErrorReply msg code \<Rightarrow> (Inl (WebSocketError msg (Some code)), c2)
           | NoReply \<Rightarrow> (Inl (WebSocketError ''Request timeout'' None), c2))"

text \<open>\<^verbatim>\<open>Set.prototype.add\<close> and \<^verbatim>\<open>Set.prototype.delete\<close>.\<close>

definition setAdd :: "string \<Rightarrow> string list \<Rightarrow> string list" where
  "setAdd x xs = (if x \<in> set xs then xs else xs @ [x])"

definition setDelete :: "string \<Rightarrow> string list \<Rightarrow> string list" where
  "setDelete x xs = removeAll x xs"

text \<open>
  \<^verbatim>\<open>subscribe(streams)\<close>, on the array \<^verbatim>\<open>streamArray\<close> (a single stream is the
  array of that one).
\<close>

definition subscribe :: "string list \<Rightarrow> reply \<Rightarrow> Client \<Rightarrow> (error + unit) \<times> Client" where
  "subscribe streamArray r c =
     (if length (subscriptions c) + length streamArray > MAX_SUBSCRIPTIONS
      then (Inl (WebSocketError ''Cannot subscribe to more than 1024 streams'' None), c)
      else
        case sendRequest SUBSCRIBE (Some streamArray) r c of
          (Inl e, c') \<Rightarrow> (Inl e, c')
        | (Inr v, c') \<Rightarrow> (Inr (), c'\<lparr>subscriptions := fold setAdd streamArray (subscriptions c')\<rparr>))"

definition unsubscribe :: "string list \<Rightarrow> reply \<Rightarrow> Client \<Rightarrow> (error + unit) \<times> Client" where
  "unsubscribe streamArray r c =
     (case sendRequest UNSUBSCRIBE (Some streamArray) r c of
        (Inl e, c') \<Rightarrow> (Inl e, c')
      | (Inr v, c') \<Rightarrow> (Inr (), c'\<lparr>subscriptions := fold setDelete streamArray (subscriptions c')\<rparr>))"

text \<open>
  The continuation of \<^verbatim>\<open>scheduleReconnect\<close> after \<^verbatim>\<open>connect()\<close> resolves:
  \<^verbatim>\<open>if (this.subscriptions.size > 0) await this.subscribe(Array.from(this.subscriptions))\<close>,
  a rejection swallowed by the \<^verbatim>\<open>catch\<close>.
\<close>

definition replaySubscriptions :: "reply \<Rightarrow> Client \<Rightarrow> Client" where
  "replaySubscriptions r c =
     (if length (subscriptions c) > 0 then snd (subscribe (subscriptions c) r c) else c)"

text \<open>
  How the connection attempt of a new socket ends: with \<^verbatim>\<open>open\<close>, or with
  \<^verbatim>\<open>error\<close> followed by \<^verbatim>\<open>close\<close>.
\<close>

datatype connectResult = Opened | Failed int string

text \<open>
  The listener of the socket's \<^verbatim>\<open>error\<close> event: \<^verbatim>\<open>handleError\<close>, then the
  promise of \<^verbatim>\<open>connect()\<close> is rejected if the state is \<^verbatim>\<open>CONNECTING\<close> (no
  field changes by that). An error thrown by \<^verbatim>\<open>handleError\<close> leaves the listener.
\<close>

definition onSocketError :: "Client \<Rightarrow> (error + unit) \<times> Client" where
  "onSocketError c = handleError c"

text \<open>
  The callback of the reconnect timer set by \<^verbatim>\<open>scheduleReconnect\<close>, run to the end of
  the connection attempt. Without a pending timer nothing runs. In a failed attempt the
  socket emits \<^verbatim>\<open>error\<close> and then \<^verbatim>\<open>close\<close>; when the listener of
  \<^verbatim>\<open>error\<close> throws, the exception leaves the dispatch of that event uncaught and
  the listener of \<^verbatim>\<open>close\<close> is not run.
\<close>

definition reconnectTimerFired :: "connectResult \<Rightarrow> reply \<Rightarrow> Client \<Rightarrow> Client" where
  "reconnectTimerFired res r c =
     (case reconnectTimeout c of
        None \<Rightarrow> c
      | Some delay \<Rightarrow>
          let c0 = c\<lparr>reconnectTimeout := None\<rparr>
          in if state c0 = OPEN \<or> state c0 = CONNECTING then replaySubscriptions r c0
             else
               (case res of
                  Opened \<Rightarrow> replaySubscriptions r (onSocketOpen (connect c0))
                | Failed code reason \<Rightarrow>
                    (case onSocketError (connect c0) of
                       (Inr u, c1) \<Rightarrow> handleClose code reason c1
                     | (Inl e, c1) \<Rightarrow> c1)))"

text \<open>The requests written to the socket, and their ids, in order.\<close>

fun sentRequests :: "effect list \<Rightarrow> WebSocketRequest list" where
  "sentRequests [] = []"
| "sentRequests (SocketSend req # es) = req # sentRequests es"
| "sentRequests (e # es) = sentRequests es"

definition idsIncreasing :: "Client \<Rightarrow> bool" where
  "idsIncreasing c =
     (sorted_wrt (<) (map req_id (sentRequests (effects c))) \<and>
      list_all (\<lambda>i. i < requestId c) (map req_id (sentRequests (effects c))))"

section \<open>Stream event router\<close>

definition trim :: "string \<Rightarrow> string" where
  "trim s = rev (dropWhile isWhiteSpace (rev (dropWhile isWhiteSpace s)))"

text \<open>\<^verbatim>\<open>dataObj.e ?? dataObj.data?.e\<close>.\<close>

definition eventTypeOf :: "jsvalue \<Rightarrow> jsvalue" where
  "eventTypeOf dataObj =
     (if \<not> nullish (getProp dataObj ''e'') then getProp dataObj ''e''
      else if nullish (getProp dataObj ''data'') then JUndefined
      else getProp (getProp dataObj ''data'') ''e'')"

text \<open>
  The cases of the \<^verbatim>\<open>switch\<close> of \<^verbatim>\<open>handleStreamData\<close>: the callback and the event
  name of each event type.
\<close>

definition streamEvent :: "string \<Rightarrow> (handler \<times> string) option" where
  "streamEvent eventType =
     (if eventType = ''aggTrade'' then Some (onAggTrade, ''aggTrade'')
      else if eventType = ''trade'' then Some (onTrade, ''trade'')
      else if eventType = ''kline'' then Some (onKline, ''kline'')
      else if eventType = ''24hrMiniTicker'' then Some (onMiniTicker, ''miniTicker'')
      else if eventType = ''24hrTicker'' then Some (onTicker, ''ticker'')
      else if eventType = ''depthUpdate'' then Some (onDepthUpdate, ''depthUpdate'')
      else if eventType = ''outboundAccountPosition'' then Some (onAccountUpdate, ''accountUpdate'')
      else if eventType = ''executionReport'' then Some (onExecutionReport, ''executionReport'')
      else if eventType = ''markPriceUpdate'' then Some (onMarkPrice, ''markPrice'')
      else if eventType = ''forceOrder'' then Some (onLiquidation, ''liquidation'')
      else if eventType = ''ACCOUNT_UPDATE'' then Some (onAccountUpdate, ''futuresAccountUpdate'')
      else if eventType = ''ORDER_TRADE_UPDATE'' then Some (onOrderUpdate, ''futuresOrderUpdate'')
      else if eventType = ''ACCOUNT_CONFIG_UPDATE''
        then Some (onAccountConfigUpdate, ''futuresAccountConfigUpdate'')
      else None)"

text \<open>The \<^verbatim>\<open>default\<close> case: a book ticker, told by its fields, or the catch-all.\<close>

definition defaultCase :: "jsvalue \<Rightarrow> Client \<Rightarrow> Client" where
  "defaultCase dataObj c =
     (if truthy (getProp dataObj ''u'') \<and> truthy (getProp dataObj ''s'') \<and>
         truthy (getProp dataObj ''b'') \<and> truthy (getProp dataObj ''a'')
      then emit ''bookTicker'' (Data dataObj) (callHandler onBookTicker (Data dataObj) c)
      else emit ''data'' (Data dataObj) c)"

text \<open>
  \<^verbatim>\<open>handleStreamData(data)\<close>, for \<open>data\<close> other than \<^verbatim>\<open>null\<close> and
  \<^verbatim>\<open>undefined\<close> (\<^verbatim>\<open>handleMessage\<close> has read \<^verbatim>\<open>message.id\<close> before it calls). The
  \<^verbatim>\<open>switch\<close> compares with \<^verbatim>\<open>===\<close>, so only a string selects a case. A callback is
  taken to return normally.
\<close>

definition handleStreamData :: "jsvalue \<Rightarrow> Client \<Rightarrow> Client" where
  "handleStreamData dataObj c =
     (case eventTypeOf dataObj of
        JStr eventType \<Rightarrow>
          (case streamEvent eventType of
             Some (h, name) \<Rightarrow> emit name (Data dataObj) (callHandler h (Data dataObj) c)
           | None \<Rightarrow> defaultCase dataObj c)
      | _ \<Rightarrow> defaultCase dataObj c)"

text \<open>
  \<^verbatim>\<open>handleMessage(data)\<close> on the text of a frame. \<^verbatim>\<open>JSON.parse\<close> is the parameter
  \<open>parse\<close>, \<open>None\<close> where it throws. Reading \<^verbatim>\<open>message.id\<close> of \<^verbatim>\<open>null\<close> throws;
  both throws end in the \<^verbatim>\<open>catch\<close>, which calls \<^verbatim>\<open>handleError\<close>. What
  \<^verbatim>\<open>handleError\<close> throws there leaves \<^verbatim>\<open>handleMessage\<close>, and with it the
  listener of the socket's \<^verbatim>\<open>message\<close> event: \<open>Inl\<close>.
\<close>

definition handleMessage ::
  "(string \<Rightarrow> jsvalue option) \<Rightarrow> string \<Rightarrow> Client \<Rightarrow> (error + unit) \<times> Client" where
  "handleMessage parse dataString c =
     (if dataString = [] \<or> length (trim dataString) = 0 then (Inr (), c)
      else
        case parse dataString of
          None \<Rightarrow> handleError c
        | Some message \<Rightarrow>
            if nullish message then handleError c
            else if (case getProp message ''id'' of JNum n \<Rightarrow> True | _ \<Rightarrow> False)
              then (Inr (), c)
            else if truthy (getProp message ''stream'') \<and> truthy (getProp message ''data'')
              then (Inr (), handleStreamData message c)
              else (Inr (), handleStreamData message c))"

section \<open>Histories of a client\<close>

text \<open>
  Everything that happens to a client: calls of its public methods, the events of its
  socket, the reconnect timer and inbound frames. \<open>Request\<close> stands for
  \<^verbatim>\<open>listSubscriptions\<close>, \<^verbatim>\<open>setProperty\<close> and \<^verbatim>\<open>getProperty\<close>, which only call
  \<^verbatim>\<open>sendRequest\<close>. A history goes on with the client as an exception left it (by
  default an uncaught exception ends the process, and the history with it).
\<close>

datatype clientEvent =
    Connect
  | SocketOpened
  | SocketError
  | SocketClosed int string
  | Disconnect
  | Subscribe "string list" reply
  | Unsubscribe "string list" reply
  | Request WebSocketMethod "string list option" reply
  | ReconnectTimer connectResult reply
  | Message string
  | On string

fun perform :: "(string \<Rightarrow> jsvalue option) \<Rightarrow> clientEvent \<Rightarrow> Client \<Rightarrow> Client" where
  "perform parse Connect c = connect c"
| "perform parse SocketOpened c = onSocketOpen c"
| "perform parse SocketError c = snd (onSocketError c)"
| "perform parse (SocketClosed code reason) c = handleClose code reason c"
| "perform parse Disconnect c = disconnect c"
| "perform parse (Subscribe streams r) c = snd (subscribe streams r c)"
| "perform parse (Unsubscribe streams r) c = snd (unsubscribe streams r c)"
| "perform parse (Request m ps r) c = snd (sendRequest m ps r c)"
| "perform parse (ReconnectTimer res r) c = reconnectTimerFired res r c"
| "perform parse (Message dataString) c = snd (handleMessage parse dataString c)"
| "perform parse (On name) c = on name c"

section \<open>Sample clients and frames\<close>

text \<open>A client with the default configuration and no callbacks, connected.\<close>

definition openClient :: Client where
  "openClient = onSocketOpen (connect (newClient defaultConfig []))"

text \<open>\<open>n\<close> different stream names.\<close>

definition streamNames :: "nat \<Rightarrow> string list" where
  "streamNames n = map (\<lambda>k. replicate k CHR ''s'') [1..<Suc n]"

text \<open>
  A connected client whose first request, a subscription to \<open>streams\<close>, has been
  answered.
\<close>

definition subscribedClient :: "WebSocketConfig \<Rightarrow> string list \<Rightarrow> Client" where
  "subscribedClient cfg streams =
     snd (subscribe streams (Result JNull) (onSocketOpen (connect (newClient cfg []))))"


text \<open>
  Frames of the spec's routing scenarios with the values \<^verbatim>\<open>JSON.parse\<close> gives for
  them, a book ticker whose update id is 0, a client with callbacks for trades, book
  tickers and errors, and the same client with a listener for \<^verbatim>\<open>error\<close>.
\<close>

definition tradeFrame :: string where
  \<open>tradeFrame = ''{"e":"trade","s":"BTCUSDT","p":"50000.00","q":"1.00"}''\<close>

definition tradeMessage :: jsvalue where
  "tradeMessage =
     JObj [(''e'', JStr ''trade''), (''s'', JStr ''BTCUSDT''), (''p'', JStr ''50000.00''),
           (''q'', JStr ''1.00'')]"

definition bookTickerFrame :: string where
  \<open>bookTickerFrame = ''{"u":1,"s":"BTCUSDT","b":"1","B":"1","a":"2","A":"1"}''\<close>

definition bookTickerMessage :: jsvalue where
  "bookTickerMessage =
     JObj [(''u'', JNum 1), (''s'', JStr ''BTCUSDT''), (''b'', JStr ''1''), (''B'', JStr ''1''),
           (''a'', JStr ''2''), (''A'', JStr ''1'')]"

definition zeroUpdateFrame :: string where
  \<open>zeroUpdateFrame = ''{"u":0,"s":"BTCUSDT","b":"1","B":"1","a":"2","A":"1"}''\<close>

definition zeroUpdateMessage :: jsvalue where
  "zeroUpdateMessage =
     JObj [(''u'', JNum 0), (''s'', JStr ''BTCUSDT''), (''b'', JStr ''1''), (''B'', JStr ''1''),
           (''a'', JStr ''2''), (''A'', JStr ''1'')]"

definition replyFrame :: string where
  \<open>replyFrame = ''{"id":7,"result":null}''\<close>

definition replyMessage :: jsvalue where
  "replyMessage = JObj [(''id'', JNum 7), (''result'', JNull)]"

definition sampleParse :: "string \<Rightarrow> jsvalue option" where
  "sampleParse s =
     (if s = tradeFrame then Some tradeMessage
      else if s = bookTickerFrame then Some bookTickerMessage
      else if s = zeroUpdateFrame then Some zeroUpdateMessage
      else if s = replyFrame then Some replyMessage
      else None)"

definition listeningClient :: Client where
  "listeningClient = onSocketOpen (connect (newClient defaultConfig [onTrade, onBookTicker, onError]))"


section \<open>Theorems\<close>

subsection \<open>The canonical query string\<close>

lemma mset_insertBy: "mset (insertBy cmp x xs) = add_mset x (mset xs)"
  by (induction xs) auto

lemma mset_sortBy: "mset (sortBy cmp xs) = mset xs"
  by (induction xs) (auto simp: sortBy_def mset_insertBy)

lemma set_insertBy: "set (insertBy cmp x xs) = insert x (set xs)"
  by (induction xs) auto

lemma sorted_insertBy:
  assumes tot: "\<And>a b. cmp a b \<le> 0 \<or> cmp b a \<le> 0"
    and trans: "\<And>a b c. cmp a b \<le> 0 \<Longrightarrow> cmp b c \<le> 0 \<Longrightarrow> cmp a c \<le> 0"
    and srt: "sorted_wrt (\<lambda>a b. cmp a b \<le> 0) xs"
  shows "sorted_wrt (\<lambda>a b. cmp a b \<le> 0) (insertBy cmp x xs)"
  using srt
proof (induction xs)
  case Nil
  then show ?case by simp
next
  case (Cons y ys)
  show ?case
  proof (cases "cmp x y \<le> 0")
    case True
    with Cons.prems trans show ?thesis by auto
  next
    case False
    with tot have "cmp y x \<le> 0" by blast
    with False Cons show ?thesis by (auto simp: set_insertBy)
  qed
qed

lemma sorted_sortBy:
  assumes "consistentComparator cmp"
  shows "sorted_wrt (\<lambda>a b. cmp a b \<le> 0) (sortBy cmp xs)"
proof -
  have tot: "\<And>a b. cmp a b \<le> 0 \<or> cmp b a \<le> 0"
    and trans: "\<And>a b c. cmp a b \<le> 0 \<Longrightarrow> cmp b c \<le> 0 \<Longrightarrow> cmp a c \<le> 0"
    using assms unfolding consistentComparator_def by blast+
  show ?thesis
  proof (induction xs)
    case Nil
    then show ?case by (simp add: sortBy_def)
  next
    case (Cons x xs)
    have "sortBy cmp (x # xs) = insertBy cmp x (sortBy cmp xs)"
      by (simp add: sortBy_def)
    with Cons sorted_insertBy [of cmp "sortBy cmp xs" x] tot trans show ?case
      by metis
  qed
qed

lemma consistent_on_keys:
  "consistentComparator cmp \<Longrightarrow> consistentComparator (\<lambda>a b. cmp (fst a) (fst b))"
  unfolding consistentComparator_def by blast

lemma sorted_keys:
  assumes "consistentComparator cmp"
  shows "sorted_wrt (\<lambda>a b. cmp a b \<le> 0) (map fst (sortedEntries cmp params))"
  using sorted_sortBy [OF consistent_on_keys [OF assms], of "filter keptEntry params"]
  by (simp add: sortedEntries_def sorted_wrt_map)

lemma set_join: "set (join sep xs) \<subseteq> set sep \<union> \<Union> (set ` set xs)"
  by (induction sep xs rule: join.induct) auto

lemma digitChar_unreserved: "d < 16 \<Longrightarrow> uriUnreserved (digitChar d)"
proof -
  assume "d < 16"
  then have "digitChar d \<in> set ''0123456789ABCDEF''"
    unfolding digitChar_def by (intro nth_mem) simp
  moreover have "list_all uriUnreserved ''0123456789ABCDEF''"
    by (simp add: uriUnreserved_def)
  ultimately show ?thesis unfolding list_all_iff by blast
qed

lemma div64_lt: "(n::nat) < 256 \<Longrightarrow> n div 64 < 4"
  by simp

lemma utf8Bytes_lt: "b \<in> set (utf8Bytes c) \<Longrightarrow> b < 256"
proof -
  assume b: "b \<in> set (utf8Bytes c)"
  have n: "(of_char c :: nat) < 256" by simp
  then have "(of_char c :: nat) div 64 < 4" by (rule div64_lt)
  with b n show "b < 256"
    by (auto simp: utf8Bytes_def Let_def split: if_splits)
qed

lemma percentByte_safe: "b < 256 \<Longrightarrow> list_all querySafe (percentByte b)"
proof -
  assume "b < 256"
  then have "b div 16 < 16" "b mod 16 < 16" by simp_all
  then show ?thesis
    using digitChar_unreserved by (simp add: percentByte_def querySafe_def)
qed

lemma encodeChar_safe: "list_all querySafe (encodeChar c)"
proof (cases "uriUnreserved c")
  case True
  then show ?thesis by (simp add: encodeChar_def querySafe_def)
next
  case False
  have "list_all querySafe (concat (map percentByte (utf8Bytes c)))"
    using percentByte_safe utf8Bytes_lt by (fastforce simp: list_all_iff)
  with False show ?thesis by (simp add: encodeChar_def)
qed

lemma encodeURIComponent_safe: "list_all querySafe (encodeURIComponent s)"
  using encodeChar_safe by (fastforce simp: encodeURIComponent_def list_all_iff)

lemma encodeEntry_safe: "list_all (\<lambda>c. querySafe c \<or> c = CHR ''='') (encodeEntry kv)"
  using encodeURIComponent_safe [of "fst kv"] encodeURIComponent_safe [of "String (snd kv)"]
  by (auto simp: encodeEntry_def list_all_iff)

lemma createQueryString_safe:
  "list_all (\<lambda>c. querySafe c \<or> c = CHR ''='' \<or> c = CHR ''&'') (createQueryString cmp params)"
proof -
  have "querySafe c \<or> c = CHR ''='' \<or> c = CHR ''&''"
    if c: "c \<in> set (createQueryString cmp params)" for c
  proof -
    from c set_join [of "''&''" "map encodeEntry (sortedEntries cmp params)"]
    have "c = CHR ''&'' \<or> (\<exists>kv. c \<in> set (encodeEntry kv))"
      by (auto simp: createQueryString_def)
    then show ?thesis
      using encodeEntry_safe by (auto simp: list_all_iff)
  qed
  then show ?thesis by (auto simp: list_all_iff)
qed

lemma lexCompare_sym: "lexCompare ys xs = - lexCompare xs ys"
  by (induction xs ys rule: lexCompare.induct) auto

lemma lexCompare_eq0: "lexCompare xs ys = 0 \<longleftrightarrow> xs = ys"
  by (induction xs ys rule: lexCompare.induct) auto

lemma lexCompare_trans: "lexCompare xs ys \<le> 0 \<Longrightarrow> lexCompare ys zs \<le> 0 \<Longrightarrow> lexCompare xs zs \<le> 0"
proof (induction xs ys arbitrary: zs rule: lexCompare.induct)
  case 1
  then show ?case by simp
next
  case (2 y ys)
  then show ?case by (cases zs) auto
next
  case (3 x xs)
  then show ?case by simp
next
  case (4 x xs y ys)
  show ?case
  proof (cases zs)
    case Nil
    with 4 show ?thesis by simp
  next
    case (Cons z zs')
    show ?thesis
    proof (cases "x < y")
      case True
      with 4 Cons show ?thesis by (auto split: if_splits)
    next
      case False
      with "4.prems" have xy: "x = y" and t: "lexCompare xs ys \<le> 0"
        by (auto split: if_splits)
      show ?thesis
      proof (cases "y < z")
        case True
        with xy Cons show ?thesis by simp
      next
        case F2: False
        with "4.prems"(2) Cons have yz: "y = z" and t2: "lexCompare ys zs' \<le> 0"
          by (auto split: if_splits)
        from "4.IH" [OF _ _ t t2] False xy have "lexCompare xs zs' \<le> 0" by simp
        with xy yz Cons show ?thesis by simp
      qed
    qed
  qed
qed

lemma consistent_localeCompareAlnum: "consistentComparator localeCompareAlnum"
  unfolding consistentComparator_def
proof (intro conjI allI impI)
  fix a b
  show "localeCompareAlnum a b \<le> 0 \<or> localeCompareAlnum b a \<le> 0"
    using lexCompare_sym [of "map primaryWeight a" "map primaryWeight b"]
      lexCompare_sym [of "map caseWeight a" "map caseWeight b"]
    by (auto simp: localeCompareAlnum_def Let_def)
next
  fix a b c
  assume h: "localeCompareAlnum a b \<le> 0 \<and> localeCompareAlnum b c \<le> 0"
  let ?p = "\<lambda>s. map primaryWeight s" and ?t = "\<lambda>s. map caseWeight s"
  have ab: "lexCompare (?p a) (?p b) \<le> 0" and bc: "lexCompare (?p b) (?p c) \<le> 0"
    using h by (auto simp: localeCompareAlnum_def Let_def split: if_splits)
  have ac: "lexCompare (?p a) (?p c) \<le> 0" using lexCompare_trans [OF ab bc] .
  show "localeCompareAlnum a c \<le> 0"
  proof (cases "lexCompare (?p a) (?p c) = 0")
    case False
    with ac show ?thesis by (simp add: localeCompareAlnum_def Let_def)
  next
    case True
    then have eq: "?p a = ?p c" by (simp add: lexCompare_eq0)
    have "lexCompare (?p b) (?p a) \<le> 0" using bc eq by simp
    with ab lexCompare_sym [of "?p a" "?p b"] have "lexCompare (?p a) (?p b) = 0" by simp
    then have eqab: "?p a = ?p b" by (simp add: lexCompare_eq0)
    have "lexCompare (?t a) (?t b) \<le> 0" "lexCompare (?t b) (?t c) \<le> 0"
      using h eq eqab by (auto simp: localeCompareAlnum_def Let_def lexCompare_eq0 split: if_splits)
    then have "lexCompare (?t a) (?t c) \<le> 0" by (rule lexCompare_trans)
    with True show ?thesis by (simp add: localeCompareAlnum_def Let_def)
  qed
qed

text \<open>
  C1 (as amended). For every parameter mapping, and whatever consistent order
  \<^verbatim>\<open>localeCompare\<close> has in the host's locale, \<^verbatim>\<open>createQueryString\<close> is the
  \<^verbatim>\<open>key=value\<close> pairs joined by \<^verbatim>\<open>&\<close>, key and stringified value
  percent-encoded; the pairs are exactly the entries whose value is not
  \<^verbatim>\<open>undefined\<close>, \<^verbatim>\<open>null\<close> or the empty string; the keys stand in the order of
  \<^verbatim>\<open>localeCompare\<close>; and the string has only unreserved characters, \<^verbatim>\<open>%\<close>,
  \<^verbatim>\<open>=\<close> and \<^verbatim>\<open>&\<close>.
\<close>

theorem createQueryString_canonical:
  "consistentComparator localeCompare \<Longrightarrow>
   createQueryString localeCompare params =
     join ''&'' (map (\<lambda>(k, v). encodeURIComponent k @ ''='' @ encodeURIComponent (String v))
       (sortedEntries localeCompare params)) \<and>
   mset (sortedEntries localeCompare params) =
     mset (filter (\<lambda>(k, v). v \<noteq> JUndefined \<and> v \<noteq> JNull \<and> v \<noteq> JStr []) params) \<and>
   sorted_wrt (\<lambda>a b. localeCompare a b \<le> 0) (map fst (sortedEntries localeCompare params)) \<and>
   list_all (\<lambda>c. uriUnreserved c \<or> c = CHR ''%'' \<or> c = CHR ''='' \<or> c = CHR ''&'')
     (createQueryString localeCompare params)"
proof -
  assume cmp: "consistentComparator localeCompare"
  have enc: "encodeEntry = (\<lambda>(k, v). encodeURIComponent k @ ''='' @ encodeURIComponent (String v))"
    by (auto simp: encodeEntry_def fun_eq_iff)
  have kept: "keptEntry = (\<lambda>(k, v). v \<noteq> JUndefined \<and> v \<noteq> JNull \<and> v \<noteq> JStr [])"
    by (auto simp: keptEntry_def fun_eq_iff)
  have 1: "createQueryString localeCompare params =
     join ''&'' (map (\<lambda>(k, v). encodeURIComponent k @ ''='' @ encodeURIComponent (String v))
       (sortedEntries localeCompare params))"
    by (simp add: createQueryString_def enc)
  have 2: "mset (sortedEntries localeCompare params) =
     mset (filter (\<lambda>(k, v). v \<noteq> JUndefined \<and> v \<noteq> JNull \<and> v \<noteq> JStr []) params)"
    unfolding sortedEntries_def mset_sortBy kept ..
  have 3: "sorted_wrt (\<lambda>a b. localeCompare a b \<le> 0) (map fst (sortedEntries localeCompare params))"
    using cmp by (rule sorted_keys)
  have 4: "list_all (\<lambda>c. uriUnreserved c \<or> c = CHR ''%'' \<or> c = CHR ''='' \<or> c = CHR ''&'')
     (createQueryString localeCompare params)"
    using createQueryString_safe [of localeCompare params]
    by (simp add: querySafe_def list_all_iff disj_ac)
  from 1 2 3 4 show ?thesis by blast
qed

theorem createQueryString_canonical_witness:
  "consistentComparator localeCompareAlnum \<and>
   sorted_wrt (\<lambda>a b. localeCompareAlnum a b \<le> 0)
     (map fst (sortedEntries localeCompareAlnum
       [(''timestamp'', JNum 1700000000000), (''symbol'', JStr ''BTC/USDT''),
        (''newClientOrderId'', JNull), (''side'', JStr ''BUY''), (''price'', JStr [])])) \<and>
   createQueryString localeCompareAlnum
     [(''timestamp'', JNum 1700000000000), (''symbol'', JStr ''BTC/USDT''),
      (''newClientOrderId'', JNull), (''side'', JStr ''BUY''), (''price'', JStr [])] =
     ''side=BUY&symbol=BTC%2FUSDT&timestamp=1700000000000''"
proof -
  have c: "consistentComparator localeCompareAlnum"
    by (rule consistent_localeCompareAlnum)
  have v: "createQueryString localeCompareAlnum
     [(''timestamp'', JNum 1700000000000), (''symbol'', JStr ''BTC/USDT''),
      (''newClientOrderId'', JNull), (''side'', JStr ''BUY''), (''price'', JStr [])] =
     ''side=BUY&symbol=BTC%2FUSDT&timestamp=1700000000000''"
    by (simp add: createQueryString_def sortedEntries_def sortBy_def keptEntry_def
        localeCompareAlnum_def primaryWeight_def caseWeight_def encodeEntry_def
        stringOfInt_def digitChar_def encodeURIComponent_def encodeChar_def
        uriUnreserved_def utf8Bytes_def percentByte_def)
  from createQueryString_canonical [OF c, of
      "[(''timestamp'', JNum 1700000000000), (''symbol'', JStr ''BTC/USDT''),
        (''newClientOrderId'', JNull), (''side'', JStr ''BUY''), (''price'', JStr [])]"]
  have "sorted_wrt (\<lambda>a b. localeCompareAlnum a b \<le> 0)
     (map fst (sortedEntries localeCompareAlnum
       [(''timestamp'', JNum 1700000000000), (''symbol'', JStr ''BTC/USDT''),
        (''newClientOrderId'', JNull), (''side'', JStr ''BUY''), (''price'', JStr [])]))"
    by (elim conjE)
  with c v show ?thesis by (intro conjI)
qed

text \<open>
  C1 as stated fails: the order of \<^verbatim>\<open>localeCompare\<close> is not the raw order of
  the strings. In the raw order \<^verbatim>\<open>B\<close> (code 66) stands before \<^verbatim>\<open>a\<close> (code 97);
  the query string has \<^verbatim>\<open>a\<close> first.
\<close>

theorem createQueryString_raw_order_counterexample:
  "createQueryString localeCompareAlnum [(''B'', JNum 1), (''a'', JNum 2)] = ''a=2&B=1'' \<and>
   \<not> sorted_wrt (\<lambda>a b. rawCompare a b \<le> 0)
     (map fst (sortedEntries localeCompareAlnum [(''B'', JNum 1), (''a'', JNum 2)]))"
  by code_simp



subsection \<open>The nonce generator\<close>

lemma sorted_wrt_nonces:
  "sorted_wrt (\<lambda>a b. a + 1 \<le> b) ts \<Longrightarrow> sorted_wrt (<) (nonces ts)"
  by (induction ts) (auto simp: nonces_def generateNonce_def MICROSECONDS_IN_MILLISECOND_def)

text \<open>
  C2 (as amended). The nonce is the clock reading in milliseconds times 1000. Over calls
  whose readings are at least 1 ms apart the nonces are strictly increasing. Two calls
  are given different nonces exactly when they read different milliseconds, and the
  later nonce is smaller exactly when the clock went back: two calls in the same
  millisecond get the same nonce.
\<close>

theorem generateNonce_monotone:
  "generateNonce now = now * 1000 \<and>
   (sorted_wrt (\<lambda>a b. a + 1 \<le> b) ts \<longrightarrow> sorted_wrt (<) (nonces ts)) \<and>
   (generateNonce t1 = generateNonce t2 \<longleftrightarrow> t1 = t2) \<and>
   (generateNonce t1 < generateNonce t2 \<longleftrightarrow> t1 < t2)"
  using sorted_wrt_nonces [of ts]
  by (simp add: generateNonce_def MICROSECONDS_IN_MILLISECOND_def)

theorem generateNonce_monotone_witness:
  "sorted_wrt (\<lambda>a b. a + 1 \<le> b) [1700000000000, 1700000000001, 1700000000005 :: int] \<and>
   nonces [1700000000000, 1700000000001, 1700000000005] =
     [1700000000000000, 1700000000001000, 1700000000005000] \<and>
   sorted_wrt (<) (nonces [1700000000000, 1700000000001, 1700000000005])"
proof -
  have spaced: "sorted_wrt (\<lambda>a b. a + 1 \<le> b)
      [1700000000000, 1700000000001, 1700000000005 :: int]"
    by simp
  have v: "nonces [1700000000000, 1700000000001, 1700000000005] =
      [1700000000000000, 1700000000001000, 1700000000005000]"
    by (simp add: nonces_def generateNonce_def MICROSECONDS_IN_MILLISECOND_def)
  from generateNonce_monotone [of 0 "[1700000000000, 1700000000001, 1700000000005]" 0 0] spaced
  have "sorted_wrt (<) (nonces [1700000000000, 1700000000001, 1700000000005])"
    by blast
  with spaced v show ?thesis by blast
qed

text \<open>
  C2 as stated fails: two calls issued in the same millisecond repeat the nonce.
\<close>

theorem generateNonce_same_ms_counterexample:
  "\<not> distinct (nonces [1700000000000, 1700000000000])"
  by (simp add: nonces_def)

subsection \<open>The static validators\<close>

lemma testHexPrefix_iff:
  "testHexPrefix lit n s \<longleftrightarrow>
     (\<exists>h r. s = lit @ h @ r \<and> length h = n \<and> list_all isHexChar h)"
proof
  assume t: "testHexPrefix lit n s"
  let ?h = "take n (drop (length lit) s)" and ?r = "drop n (drop (length lit) s)"
  from t have "take (length lit) s = lit" by (simp add: testHexPrefix_def)
  then have "s = lit @ ?h @ ?r"
    by (metis append_take_drop_id)
  moreover from t have "length ?h = n" "list_all isHexChar ?h"
    by (simp_all add: testHexPrefix_def)
  ultimately show "\<exists>h r. s = lit @ h @ r \<and> length h = n \<and> list_all isHexChar h"
    by blast
next
  assume "\<exists>h r. s = lit @ h @ r \<and> length h = n \<and> list_all isHexChar h"
  then show "testHexPrefix lit n s"
    by (auto simp: testHexPrefix_def)
qed

lemma exactHex_accepted: "exactHex lit n s \<Longrightarrow> testHexPrefix lit n s"
  by (auto simp: exactHex_def testHexPrefix_def)

text \<open>
  C5. The claim: \<^verbatim>\<open>validateAddresses\<close> holds if and only if both arguments are
  \<^verbatim>\<open>0x\<close> and exactly 40 hexadecimal characters, and \<^verbatim>\<open>validatePrivateKey\<close> rejects
  65 hexadecimal characters. The code accepts an address of 41 hexadecimal characters and
  a key of 65: its patterns have no \<^verbatim>\<open>$\<close>, so anything may follow the counted
  characters.
\<close>

theorem validators_accept_trailing_characters:
  "validateAddresses ''0x63DD5aCC6b1aa0f563956C0e534DD30B6dcF7C4e0''
      ''0x21cF8Ae13Bb72632562c6Fff438652Ba1a151bb0'' \<and>
   \<not> exactHex ''0x'' 40 ''0x63DD5aCC6b1aa0f563956C0e534DD30B6dcF7C4e0'' \<and>
   validatePrivateKey ''4fd0a42218f3eae43a6ce26d22544e986139a01e5b34a62db53757ffca81bae10'' \<and>
   length ''4fd0a42218f3eae43a6ce26d22544e986139a01e5b34a62db53757ffca81bae10'' = 65 \<and>
   list_all isHexChar ''4fd0a42218f3eae43a6ce26d22544e986139a01e5b34a62db53757ffca81bae10''"
  by (simp add: validateAddresses_def validatePrivateKey_def testHexPrefix_def exactHex_def
      isHexChar_def ETHEREUM_ADDRESS_LENGTH_def PRIVATE_KEY_LENGTH_def)

lemma validatePrivateKey_rejects_63:
  "list_all isHexChar s \<Longrightarrow> length s = 63 \<Longrightarrow> \<not> validatePrivateKey s"
  by (auto simp: validatePrivateKey_def testHexPrefix_def PRIVATE_KEY_LENGTH_def)

subsection \<open>The rate limiter\<close>

lemma length_clean: "length (requests (cleanOldRequests now r)) \<le> length (requests r)"
  by (simp add: cleanOldRequests_def)

lemma clean_fields [simp]:
  "maxRequests (cleanOldRequests now r) = maxRequests r"
  "windowMs (cleanOldRequests now r) = windowMs r"
  by (simp_all add: cleanOldRequests_def)

lemma withinLimit_clean: "withinLimit r \<Longrightarrow> withinLimit (cleanOldRequests now r)"
  using length_clean [of now r] by (simp add: withinLimit_def)

lemma call_fields [simp]:
  "maxRequests (call now c r) = maxRequests r"
  "windowMs (call now c r) = windowMs r"
  by (cases c; simp add: canMakeRequest_def recordRequest_def waitUntilReady_def reset_def
      Let_def split: prod.splits)+

lemma calls_fields [simp]:
  "maxRequests (calls cs r) = maxRequests r"
  "windowMs (calls cs r) = windowMs r"
  by (induction cs arbitrary: r; auto)+

lemma withinLimit_call:
  assumes "withinLimit r"
    and "c = RecordRequest \<Longrightarrow> fst (canMakeRequest now r)"
    and "0 \<le> maxRequests r"
  shows "withinLimit (call now c r)"
proof (cases c)
  case CanMakeRequest
  with assms(1) show ?thesis
    by (simp add: canMakeRequest_def Let_def withinLimit_clean)
next
  case RecordRequest
  with assms(2) have "int (length (requests (cleanOldRequests now r))) < maxRequests r"
    by (simp add: canMakeRequest_def Let_def)
  with RecordRequest show ?thesis
    by (simp add: recordRequest_def Let_def withinLimit_def)
next
  case GetTimeUntilReset
  with assms(1) show ?thesis by simp
next
  case WaitUntilReady
  with assms(1) show ?thesis
    by (simp add: waitUntilReady_def canMakeRequest_def Let_def withinLimit_clean)
next
  case Reset
  with assms(3) show ?thesis by (simp add: reset_def withinLimit_def)
qed

lemma withinLimit_calls:
  "withinLimit r \<Longrightarrow> 0 \<le> maxRequests r \<Longrightarrow> admitted cs r \<Longrightarrow>
   withinLimit (calls cs r) \<and> maxRequests (calls cs r) = maxRequests r"
proof (induction cs arbitrary: r)
  case Nil
  then show ?case by simp
next
  case (Cons a cs)
  obtain now c where a: "a = (now, c)" by (cases a)
  from Cons.prems a have adm: "c = RecordRequest \<Longrightarrow> fst (canMakeRequest now r)"
    and rest: "admitted cs (call now c r)"
    by (auto split: if_splits)
  have w: "withinLimit (call now c r)"
    using Cons.prems(1) adm Cons.prems(2) by (rule withinLimit_call)
  from Cons.IH [OF w _ rest] Cons.prems(2) a show ?case by simp
qed

lemma inWindow_le: "inWindow now r \<le> length (requests r)"
  by (simp add: inWindow_def)

lemma five_records:
  "requests (calls (replicate 5 (t, RecordRequest)) (newRateLimiter 5 1000)) = [t, t, t, t, t]"
  by (simp add: numeral_eq_Suc newRateLimiter_def recordRequest_def cleanOldRequests_def Let_def)

text \<open>
  C6 (as amended). When \<^verbatim>\<open>maxRequests\<close> is not negative and every
  \<^verbatim>\<open>recordRequest()\<close> of a history is made while \<^verbatim>\<open>canMakeRequest()\<close> answers
  true, the number of recorded timestamps inside the trailing window never exceeds
  \<^verbatim>\<open>maxRequests\<close>, whatever \<^verbatim>\<open>canMakeRequest\<close>, \<^verbatim>\<open>getTimeUntilReset\<close>,
  \<^verbatim>\<open>waitUntilReady\<close> and \<^verbatim>\<open>reset\<close> calls the history has. With
  \<^verbatim>\<open>maxRequests = 5\<close> and \<^verbatim>\<open>windowMs = 1000\<close>, after 5 \<^verbatim>\<open>recordRequest()\<close>
  calls \<^verbatim>\<open>canMakeRequest()\<close> is false, and 1001 ms later it is true.
\<close>

theorem rateLimiter_window_bound:
  "(0 \<le> maxReq \<and> admitted cs (newRateLimiter maxReq window) \<longrightarrow>
      int (inWindow now (calls cs (newRateLimiter maxReq window))) \<le> maxReq) \<and>
   \<not> fst (canMakeRequest t (calls (replicate 5 (t, RecordRequest)) (newRateLimiter 5 1000))) \<and>
   fst (canMakeRequest (t + 1001) (calls (replicate 5 (t, RecordRequest)) (newRateLimiter 5 1000)))"
proof (intro conjI impI)
  assume h: "0 \<le> maxReq \<and> admitted cs (newRateLimiter maxReq window)"
  let ?r = "newRateLimiter maxReq window"
  from h have "withinLimit ?r" "0 \<le> maxRequests ?r" "admitted cs ?r"
    by (simp_all add: withinLimit_def newRateLimiter_def)
  then have "withinLimit (calls cs ?r) \<and> maxRequests (calls cs ?r) = maxRequests ?r"
    by (rule withinLimit_calls)
  then have "int (length (requests (calls cs ?r))) \<le> maxReq"
    by (simp add: withinLimit_def newRateLimiter_def)
  with inWindow_le [of now "calls cs ?r"]
  show "int (inWindow now (calls cs ?r)) \<le> maxReq" by linarith
next
  let ?r = "calls (replicate 5 (t, RecordRequest)) (newRateLimiter 5 1000)"
  show "\<not> fst (canMakeRequest t ?r)"
    by (simp add: canMakeRequest_def cleanOldRequests_def Let_def newRateLimiter_def
        five_records [unfolded newRateLimiter_def])
  show "fst (canMakeRequest (t + 1001) ?r)"
    by (simp add: canMakeRequest_def cleanOldRequests_def Let_def newRateLimiter_def
        five_records [unfolded newRateLimiter_def])
qed

theorem rateLimiter_window_bound_witness:
  "(0::int) \<le> 2 \<and>
   admitted [(0, RecordRequest), (10, CanMakeRequest), (10, RecordRequest), (20, WaitUntilReady),
             (1005, RecordRequest), (1011, GetTimeUntilReset), (1011, RecordRequest)]
     (newRateLimiter 2 1000) \<and>
   requests (calls [(0, RecordRequest), (10, CanMakeRequest), (10, RecordRequest), (20, WaitUntilReady),
             (1005, RecordRequest), (1011, GetTimeUntilReset), (1011, RecordRequest)]
     (newRateLimiter 2 1000)) = [1005, 1011] \<and>
   int (inWindow 1011 (calls [(0, RecordRequest), (10, CanMakeRequest), (10, RecordRequest),
             (20, WaitUntilReady), (1005, RecordRequest), (1011, GetTimeUntilReset),
             (1011, RecordRequest)] (newRateLimiter 2 1000))) \<le> 2"
proof -
  let ?cs = "[(0, RecordRequest), (10, CanMakeRequest), (10, RecordRequest), (20, WaitUntilReady),
             (1005, RecordRequest), (1011, GetTimeUntilReset), (1011, RecordRequest)]"
  have a: "admitted ?cs (newRateLimiter 2 1000)"
    by (simp add: newRateLimiter_def canMakeRequest_def recordRequest_def cleanOldRequests_def
        waitUntilReady_def getTimeUntilReset_def minOf_def Let_def)
  have r: "requests (calls ?cs (newRateLimiter 2 1000)) = [1005, 1011]"
    by (simp add: newRateLimiter_def canMakeRequest_def recordRequest_def cleanOldRequests_def
        waitUntilReady_def getTimeUntilReset_def minOf_def Let_def)
  from rateLimiter_window_bound [of 2 ?cs 1000 1011 0] a
  have "int (inWindow 1011 (calls ?cs (newRateLimiter 2 1000))) \<le> 2" by simp
  with a r show ?thesis by simp
qed

text \<open>
  C6 as stated fails: \<^verbatim>\<open>recordRequest\<close> records without asking, so six calls
  in one millisecond leave six timestamps inside the window of a limiter for five.
\<close>

theorem recordRequest_unguarded_counterexample:
  "\<not> int (inWindow 0 (calls (replicate 6 (0, RecordRequest)) (newRateLimiter 5 1000))) \<le> 5"
  by (simp add: numeral_eq_Suc newRateLimiter_def recordRequest_def cleanOldRequests_def
      inWindow_def Let_def)

subsection \<open>The retry loop of the transport\<close>

text \<open>
  With \<^verbatim>\<open>maxRetries\<close> not negative, \<^verbatim>\<open>request\<close> goes round again at most
  \<^verbatim>\<open>maxRetries\<close> times, each time after a retryable failure, sleeping before retry
  \<open>k\<close> what \<^verbatim>\<open>getRetryDelay\<close> makes of the backoff delay
  \<^verbatim>\<open>retryDelay * backoffMultiplier ^ k\<close>, and ends with the result of its last
  attempt: a response, an error that is not retryable, or the error of attempt
  \<^verbatim>\<open>maxRetries\<close>.
\<close>

lemma requestLoop_run:
  "int a \<le> maxRetries cfg \<Longrightarrow>
   a \<le> retries (requestLoop cfg net a le sl) \<and>
   int (retries (requestLoop cfg net a le sl)) \<le> maxRetries cfg \<and>
   outcome (requestLoop cfg net a le sl) =
     executeRequest (net (retries (requestLoop cfg net a le sl))) \<and>
   (\<forall>k. a \<le> k \<and> k < retries (requestLoop cfg net a le sl) \<longrightarrow>
      (\<exists>e. executeRequest (net k) = Inl e \<and> isRetryableError e)) \<and>
   sleeps (requestLoop cfg net a le sl) =
     sl @ map (\<lambda>k. case executeRequest (net k) of
                      Inl e \<Rightarrow> getRetryDelay e (retryDelay cfg * backoffMultiplier cfg ^ k)
                    | Inr r \<Rightarrow> 0)
            [a..<retries (requestLoop cfg net a le sl)] \<and>
   ((\<exists>r. outcome (requestLoop cfg net a le sl) = Inr r) \<or>
    (\<exists>e. outcome (requestLoop cfg net a le sl) = Inl e \<and>
         (\<not> isRetryableError e \<or> int (retries (requestLoop cfg net a le sl)) = maxRetries cfg)))"
proof (induction cfg net a le sl rule: requestLoop.induct)
  case (1 cfg net attempt lastError slept)
  show ?case
  proof (cases "executeRequest (net attempt)")
    case (Inr r)
    with "1.prems" show ?thesis
      by (auto simp: requestLoop.simps [of cfg net attempt])
  next
    case (Inl e)
    show ?thesis
    proof (cases "int attempt = maxRetries cfg \<or> \<not> isRetryableError e")
      case True
      with Inl "1.prems" show ?thesis
        by (auto simp: requestLoop.simps [of cfg net attempt])
    next
      case False
      let ?d = "getRetryDelay e (retryDelay cfg * backoffMultiplier cfg ^ attempt)"
      let ?R = "requestLoop cfg net (attempt + 1) (Some e) (slept @ [?d])"
      have eq: "requestLoop cfg net attempt lastError slept = ?R"
        using Inl False "1.prems" by (simp add: requestLoop.simps [of cfg net attempt] Let_def)
      have next_ok: "int (attempt + 1) \<le> maxRetries cfg"
        using False "1.prems" by simp
      define R where "R = ?R"
      have eq': "requestLoop cfg net attempt lastError slept = R"
        using eq by (simp add: R_def)
      have ih: "attempt + 1 \<le> retries R \<and>
         int (retries R) \<le> maxRetries cfg \<and>
         outcome R = executeRequest (net (retries R)) \<and>
         (\<forall>k. attempt + 1 \<le> k \<and> k < retries R \<longrightarrow>
            (\<exists>e. executeRequest (net k) = Inl e \<and> isRetryableError e)) \<and>
         sleeps R = (slept @ [?d]) @
           map (\<lambda>k. case executeRequest (net k) of
                      Inl e \<Rightarrow> getRetryDelay e (retryDelay cfg * backoffMultiplier cfg ^ k)
                    | Inr r \<Rightarrow> 0) [attempt + 1..<retries R] \<and>
         ((\<exists>r. outcome R = Inr r) \<or>
          (\<exists>e. outcome R = Inl e \<and> (\<not> isRetryableError e \<or> int (retries R) = maxRetries cfg)))"
        unfolding R_def using "1.IH" [OF "1.prems" Inl _ refl next_ok] False by blast
      have upt: "[attempt..<retries R] = attempt # [attempt + 1..<retries R]"
        using ih by (simp add: upt_conv_Cons)
      have retr: "\<forall>k. attempt \<le> k \<and> k < retries R \<longrightarrow>
            (\<exists>e. executeRequest (net k) = Inl e \<and> isRetryableError e)"
      proof (intro allI impI)
        fix k assume k: "attempt \<le> k \<and> k < retries R"
        show "\<exists>e. executeRequest (net k) = Inl e \<and> isRetryableError e"
        proof (cases "k = attempt")
          case True
          with Inl False show ?thesis by simp
        next
          case F: False
          with k have "attempt + 1 \<le> k \<and> k < retries R" by simp
          with ih show ?thesis by blast
        qed
      qed
      have sl: "sleeps R = slept @ map (\<lambda>k. case executeRequest (net k) of
                      Inl e \<Rightarrow> getRetryDelay e (retryDelay cfg * backoffMultiplier cfg ^ k)
                    | Inr r \<Rightarrow> 0) [attempt..<retries R]"
        using ih unfolding upt by (simp add: Inl)
      have le: "attempt \<le> retries R" using ih by simp
      from ih retr sl le show ?thesis
        unfolding eq' by blast
    qed
  qed
qed

lemma request_run:
  "0 \<le> maxRetries cfg \<Longrightarrow>
   int (retries (request cfg net)) \<le> maxRetries cfg \<and>
   outcome (request cfg net) = executeRequest (net (retries (request cfg net))) \<and>
   (\<forall>k. k < retries (request cfg net) \<longrightarrow>
      (\<exists>e. executeRequest (net k) = Inl e \<and> isRetryableError e)) \<and>
   sleeps (request cfg net) =
     map (\<lambda>k. case executeRequest (net k) of
                      Inl e \<Rightarrow> getRetryDelay e (retryDelay cfg * backoffMultiplier cfg ^ k)
                    | Inr r \<Rightarrow> 0)
            [0..<retries (request cfg net)] \<and>
   ((\<exists>r. outcome (request cfg net) = Inr r) \<or>
    (\<exists>e. outcome (request cfg net) = Inl e \<and>
         (\<not> isRetryableError e \<or> int (retries (request cfg net)) = maxRetries cfg)))"
proof -
  assume "0 \<le> maxRetries cfg"
  then have "int 0 \<le> maxRetries cfg" by simp
  from requestLoop_run [OF this, of net None "[]"]
  have "int (retries (request cfg net)) \<le> maxRetries cfg \<and>
    outcome (request cfg net) = executeRequest (net (retries (request cfg net))) \<and>
    (\<forall>k. 0 \<le> k \<and> k < retries (request cfg net) \<longrightarrow>
      (\<exists>e. executeRequest (net k) = Inl e \<and> isRetryableError e)) \<and>
    sleeps (request cfg net) =
     [] @ map (\<lambda>k. case executeRequest (net k) of
                      Inl e \<Rightarrow> getRetryDelay e (retryDelay cfg * backoffMultiplier cfg ^ k)
                    | Inr r \<Rightarrow> 0)
            [0..<retries (request cfg net)] \<and>
    ((\<exists>r. outcome (request cfg net) = Inr r) \<or>
     (\<exists>e. outcome (request cfg net) = Inl e \<and>
         (\<not> isRetryableError e \<or> int (retries (request cfg net)) = maxRetries cfg)))"
    unfolding request_def by blast
  then show ?thesis
    unfolding append_Nil by blast
qed

lemma retryable_http:
  "isRetryableError (fromHttpResponse status header) \<longleftrightarrow>
     status \<ge> 500 \<or> status = 429 \<or> status = 418"
  by (auto simp: fromHttpResponse_def isClientError_def isServerError_def isRateLimitError_def
      BAD_REQUEST_def INTERNAL_SERVER_ERROR_def TOO_MANY_REQUESTS_def IM_A_TEAPOT_def)

text \<open>
  A failure of the transport is retryable exactly when it is a response with status 500
  or more, 429 or 418 whose body was read, a timeout or a \<^verbatim>\<open>fetch\<close> failure.
\<close>

lemma retryable_caught: "isRetryableError (caught t) \<longleftrightarrow> t = AbortError \<or> t = FetchTypeError"
  by (cases t) simp_all

lemma retryable_transport:
  "(\<exists>e. executeRequest x = Inl e \<and> isRetryableError e) \<longleftrightarrow>
     (\<exists>status header. x = Response status header None \<and>
        (status \<ge> 500 \<or> status = 429 \<or> status = 418)) \<or>
     (\<exists>status header t. x = Response status header (Some t) \<and>
        (t = AbortError \<or> t = FetchTypeError)) \<or>
     x = Rejected AbortError \<or> x = Rejected FetchTypeError"
proof (cases x)
  case (Response status header body)
  then show ?thesis
    by (cases body) (auto simp: retryable_http retryable_caught)
next
  case (Rejected t)
  then show ?thesis
    by (auto simp: retryable_caught)
qed

lemma getRetryDelay_cases:
  "getRetryDelay e d =
     (case e of
        RateLimitError status (Some h) \<Rightarrow>
          (case parseInt h of
             Some n \<Rightarrow> if h \<noteq> [] \<and> n \<noteq> 0 then real_of_int (n * 1000) else d
           | None \<Rightarrow> d)
      | _ \<Rightarrow> d)"
  by (cases e) (auto simp: getRetryAfter_def MILLISECONDS_IN_SECOND_def split: option.splits)

text \<open>
  Two 503 responses and then a 200 whose body is read resolve after exactly 2 retries
  when \<^verbatim>\<open>maxRetries\<close> is at least 2.
\<close>

lemma request_503_503_ok:
  assumes "2 \<le> maxRetries cfg"
    and "net 0 = Response 503 h0 None" and "net 1 = Response 503 h1 None"
    and "net 2 = Response 200 h2 None"
  shows "request cfg net =
    \<lparr>outcome = Inr 200, retries = 2,
     sleeps = [retryDelay cfg, retryDelay cfg * backoffMultiplier cfg]\<rparr>"
proof -
  have r: "isRetryableError (fromHttpResponse 503 h)" for h
    by (simp add: retryable_http)
  have d: "getRetryDelay (fromHttpResponse 503 h) x = x" for h x
    by (simp add: fromHttpResponse_def TOO_MANY_REQUESTS_def IM_A_TEAPOT_def)
  have n2: "net (Suc (Suc 0)) = Response 200 h2 None"
    using assms(4) by (simp add: numeral_2_eq_2)
  have 2: "requestLoop cfg net (Suc (Suc 0)) le sl =
      \<lparr>outcome = Inr 200, retries = 2, sleeps = sl\<rparr>" for le sl
    using assms(1) n2 by (simp add: requestLoop.simps [of cfg net "Suc (Suc 0)"])
  have 1: "requestLoop cfg net (Suc 0) le sl =
      \<lparr>outcome = Inr 200, retries = 2, sleeps = sl @ [retryDelay cfg * backoffMultiplier cfg]\<rparr>" for le sl
    using assms r d 2 [of _ "sl @ [retryDelay cfg * backoffMultiplier cfg]"]
    by (simp add: requestLoop.simps [of cfg net "Suc 0"] Let_def)
  show ?thesis
    using assms r d 1 [of _ "[retryDelay cfg]"]
    by (simp add: request_def requestLoop.simps [of cfg net 0] Let_def)
qed

text \<open>A 4xx response other than 429 and 418 rejects at once, with no retry.\<close>

lemma request_client_error:
  assumes "0 \<le> maxRetries cfg"
    and "net 0 = Response status header None"
    and "400 \<le> status" and "status < 500" and "status \<noteq> 429" and "status \<noteq> 418"
  shows "request cfg net =
    \<lparr>outcome = Inl (ApiResponseError status header), retries = 0, sleeps = []\<rparr>"
proof -
  have "\<not> isRetryableError (fromHttpResponse status header)"
    using assms by (simp add: retryable_http)
  moreover have "fromHttpResponse status header = ApiResponseError status header"
    using assms by (simp add: fromHttpResponse_def TOO_MANY_REQUESTS_def IM_A_TEAPOT_def)
  ultimately show ?thesis
    using assms by (simp add: request_def requestLoop.simps [of cfg net 0])
qed

lemma parseInt_examples:
  "parseInt ''2'' = Some 2" "parseInt ''0'' = Some 0" "parseInt '' 30s'' = Some 30"
  "parseInt ''Wed, 21 Oct 2015 07:28:00 GMT'' = None" "parseInt ''-5'' = Some (- 5)"
  "parseInt ''30'' = Some 30"
  by (simp_all add: parseInt_def isWhiteSpace_def isDigit_def digitsValue_def)

text \<open>
  The delay before a retry is the backoff delay, or, on a rate-limit error whose
  \<^verbatim>\<open>retry-after\<close> header parses to an integer other than 0, that many seconds.
\<close>

lemma getRetryDelay_header:
  "getRetryDelay err d =
     (case err of
        RateLimitError status (Some h) \<Rightarrow>
          (case parseInt h of
             Some n \<Rightarrow> if n \<noteq> 0 then real_of_int (n * 1000) else d
           | None \<Rightarrow> d)
      | _ \<Rightarrow> d)"
proof -
  have "parseInt [] = None" by (simp add: parseInt_def)
  then show ?thesis
    unfolding getRetryDelay_cases [of err d]
    by (auto split: error.splits option.splits)
qed

lemma request_examples:
  "request \<lparr>maxRetries = 3, retryDelay = 1000, backoffMultiplier = 2\<rparr>
     (\<lambda>k. if k = 0 then Response 429 (Some ''2'') None
          else if k = 1 then Response 503 None None else Response 200 None None) =
     \<lparr>outcome = Inr 200, retries = 2, sleeps = [2000, 2000]\<rparr>"
  "request \<lparr>maxRetries = 3, retryDelay = 1000, backoffMultiplier = 2\<rparr>
     (\<lambda>k. if k < 2 then Response 503 None None else Response 200 None None) =
     \<lparr>outcome = Inr 200, retries = 2, sleeps = [1000, 2000]\<rparr>"
  "request \<lparr>maxRetries = 3, retryDelay = 1000, backoffMultiplier = 2\<rparr>
     (\<lambda>k. Response 400 None None) =
     \<lparr>outcome = Inl (ApiResponseError 400 None), retries = 0, sleeps = []\<rparr>"
  "request \<lparr>maxRetries = 3, retryDelay = 1000, backoffMultiplier = 2\<rparr>
     (\<lambda>k. Response 200 None (Some OtherThrown)) =
     \<lparr>outcome = Inl OtherError, retries = 0, sleeps = []\<rparr>"
proof -
  let ?cfg = "\<lparr>maxRetries = 3, retryDelay = 1000, backoffMultiplier = 2\<rparr>"
  let ?net = "\<lambda>k::nat. if k = 0 then Response 429 (Some ''2'') None
          else if k = 1 then Response 503 None None else Response 200 None None"
  let ?net2 = "\<lambda>k::nat. if k < 2 then Response 503 None None else Response 200 None None"
  let ?net4 = "\<lambda>k::nat. Response 400 None None"
  let ?net5 = "\<lambda>k::nat. Response 200 None (Some OtherThrown)"
  show "request ?cfg ?net = \<lparr>outcome = Inr 200, retries = 2, sleeps = [2000, 2000]\<rparr>"
    by (simp add: request_def requestLoop.simps [of ?cfg ?net] fromHttpResponse_def
        isClientError_def isServerError_def isRateLimitError_def getRetryAfter_def
        parseInt_examples BAD_REQUEST_def INTERNAL_SERVER_ERROR_def TOO_MANY_REQUESTS_def
        IM_A_TEAPOT_def MILLISECONDS_IN_SECOND_def Let_def)
  show "request ?cfg ?net2 = \<lparr>outcome = Inr 200, retries = 2, sleeps = [1000, 2000]\<rparr>"
    using request_503_503_ok [of ?cfg ?net2 None None None] by simp
  show "request ?cfg ?net4 =
      \<lparr>outcome = Inl (ApiResponseError 400 None), retries = 0, sleeps = []\<rparr>"
    using request_client_error [of ?cfg ?net4 400 None] by simp
  show "request ?cfg ?net5 = \<lparr>outcome = Inl OtherError, retries = 0, sleeps = []\<rparr>"
    by (simp add: request_def requestLoop.simps [of ?cfg ?net5])
qed

text \<open>
  C7. The claim holds but for the override of the delay: it says the delay before a
  retry is overridden by the value of the \<^verbatim>\<open>Retry-After\<close> header on a rate-limit
  error. \<^verbatim>\<open>getRetryDelay\<close> tests \<^verbatim>\<open>error.retryAfter\<close> for truthiness, and 0 is
  falsy: on a 429 response with \<^verbatim>\<open>Retry-After: 0\<close> the transport sleeps the backoff
  delay, 1000 ms, where the header's value is 0 ms. A header of 30 gives 30000 ms, as
  the repository's test of \<^verbatim>\<open>getRetryDelay\<close> expects, and one of -5 is taken too; only
  0 is passed over, though the header is present.
\<close>

theorem retry_after_zero_not_honoured:
  "parseInt ''0'' = Some 0 \<and>
   getRetryAfter (Some ''0'') = Some (Some 0) \<and>
   getRetryDelay (fromHttpResponse 429 (Some ''0'')) 1000 = 1000 \<and>
   getRetryDelay (fromHttpResponse 429 (Some ''30'')) 1000 = 30000 \<and>
   getRetryDelay (fromHttpResponse 429 (Some ''-5'')) 1000 = - 5000 \<and>
   request \<lparr>maxRetries = 3, retryDelay = 1000, backoffMultiplier = 2\<rparr>
     (\<lambda>k. if k = 0 then Response 429 (Some ''0'') None else Response 200 None None) =
     \<lparr>outcome = Inr 200, retries = 1, sleeps = [1000]\<rparr>"
proof -
  let ?cfg = "\<lparr>maxRetries = 3, retryDelay = 1000, backoffMultiplier = 2\<rparr>"
  let ?net = "\<lambda>k::nat. if k = 0 then Response 429 (Some ''0'') None else Response 200 None None"
  have a: "getRetryAfter (Some ''0'') = Some (Some 0)"
    "getRetryDelay (fromHttpResponse 429 (Some ''0'')) 1000 = 1000"
    "getRetryDelay (fromHttpResponse 429 (Some ''30'')) 1000 = 30000"
    "getRetryDelay (fromHttpResponse 429 (Some ''-5'')) 1000 = - 5000"
    by (simp_all add: fromHttpResponse_def getRetryAfter_def parseInt_examples
        TOO_MANY_REQUESTS_def IM_A_TEAPOT_def MILLISECONDS_IN_SECOND_def)
  have b: "request ?cfg ?net = \<lparr>outcome = Inr 200, retries = 1, sleeps = [1000]\<rparr>"
    by (simp add: request_def requestLoop.simps [of ?cfg ?net] fromHttpResponse_def
        isClientError_def isServerError_def isRateLimitError_def getRetryAfter_def
        parseInt_examples BAD_REQUEST_def INTERNAL_SERVER_ERROR_def TOO_MANY_REQUESTS_def
        IM_A_TEAPOT_def MILLISECONDS_IN_SECOND_def Let_def)
  from a b parseInt_examples(2) show ?thesis by blast
qed

subsection \<open>The subscription set\<close>



lemma fold_setAdd_subset: "set xs \<subseteq> set s \<Longrightarrow> fold setAdd xs s = s"
  by (induction xs arbitrary: s) (auto simp: setAdd_def)

lemma fold_setAdd_fresh:
  "distinct xs \<Longrightarrow> set xs \<inter> set s = {} \<Longrightarrow> fold setAdd xs s = s @ xs"
  by (induction xs arbitrary: s) (auto simp: setAdd_def)

lemma distinct_fold_setAdd: "distinct s \<Longrightarrow> distinct (fold setAdd xs s)"
  by (induction xs arbitrary: s) (auto simp: setAdd_def)










lemma openClient_eq:
  "openClient =
    \<lparr>ws = True, config = defaultConfig, state = OPEN, subscriptions = [], requestId = 1,
     pingIntervalTimer = True, pongTimeoutTimer = False, reconnectTimeout = None,
     reconnectAttempts = 0, eventHandlers = [], listeners = [],
     effects = [SocketNew, Emit ''open'' NoArgs]\<rparr>"
  by (simp add: openClient_def onSocketOpen_def connect_def newClient_def emit_def callHandler_def
      startPingInterval_def)




subsection \<open>Subscribe and unsubscribe requests\<close>

lemma sentRequests_append: "sentRequests (xs @ ys) = sentRequests xs @ sentRequests ys"
  by (induction xs rule: sentRequests.induct) auto

lemma sentRequests_callHandler [simp]:
  "sentRequests (effects (callHandler h p c)) = sentRequests (effects c)"
  by (simp add: callHandler_def sentRequests_append)

lemma sentRequests_emit [simp]:
  "sentRequests (effects (emit name p c)) = sentRequests (effects c)"
  by (simp add: emit_def sentRequests_append)

lemma requestId_callHandler [simp]: "requestId (callHandler h p c) = requestId c"
  by (simp add: callHandler_def)

lemma requestId_emit [simp]: "requestId (emit name p c) = requestId c"
  by (simp add: emit_def)

lemma onSocketOpen_fields [simp]:
  "subscriptions (onSocketOpen c) = subscriptions c"
  "requestId (onSocketOpen c) = requestId c"
  "sentRequests (effects (onSocketOpen c)) = sentRequests (effects c)"
  "state (onSocketOpen c) = OPEN"
  "reconnectAttempts (onSocketOpen c) = 0"
  "ws (onSocketOpen c) = ws c"
  by (simp_all add: onSocketOpen_def emit_def callHandler_def startPingInterval_def
      sentRequests_append)

lemma connect_fields [simp]:
  "subscriptions (connect c) = subscriptions c"
  "requestId (connect c) = requestId c"
  "sentRequests (effects (connect c)) = sentRequests (effects c)"
  "state c = CLOSED \<Longrightarrow> ws (connect c)"
  by (simp_all add: connect_def sentRequests_append)

lemma handleClose_wire [simp]:
  "requestId (handleClose code reason c) = requestId c"
  "sentRequests (effects (handleClose code reason c)) = sentRequests (effects c)"
  by (simp_all add: handleClose_def clearTimers_def clearPongTimeout_def emit_def
      callHandler_def scheduleReconnect_def Let_def sentRequests_append)

lemma subscribe_not_open:
  "state c \<noteq> OPEN \<Longrightarrow>
   subscribe streams r c =
     (Inl (WebSocketError
        (if length (subscriptions c) + length streams > 1024
         then ''Cannot subscribe to more than 1024 streams''
         else ''WebSocket is not connected'') None), c)"
  by (simp add: subscribe_def sendRequest_def isConnected_def MAX_SUBSCRIPTIONS_def)

lemma unsubscribe_not_open:
  "state c \<noteq> OPEN \<Longrightarrow>
   unsubscribe streams r c = (Inl (WebSocketError ''WebSocket is not connected'' None), c)"
  by (simp add: unsubscribe_def sendRequest_def isConnected_def)

lemma sendRequest_open:
  "state c = OPEN \<Longrightarrow> ws c \<Longrightarrow>
   requestId (snd (sendRequest m ps r c)) = requestId c + 1 \<and>
   effects (snd (sendRequest m ps r c)) =
     effects c @ [SocketSend \<lparr>req_method = m, req_params = ps, req_id = requestId c\<rparr>]"
  by (simp add: sendRequest_def isConnected_def Let_def split: reply.splits)

lemma subscribe_open:
  "state c = OPEN \<Longrightarrow> ws c \<Longrightarrow> length (subscriptions c) + length streams \<le> 1024 \<Longrightarrow>
   requestId (snd (subscribe streams r c)) = requestId c + 1 \<and>
   effects (snd (subscribe streams r c)) =
     effects c @ [SocketSend \<lparr>req_method = SUBSCRIBE, req_params = Some streams,
                               req_id = requestId c\<rparr>]"
  using sendRequest_open [of c SUBSCRIBE "Some streams" r]
  by (auto simp: subscribe_def MAX_SUBSCRIPTIONS_def split: prod.splits sum.splits)

lemma unsubscribe_open:
  "state c = OPEN \<Longrightarrow> ws c \<Longrightarrow>
   requestId (snd (unsubscribe streams r c)) = requestId c + 1 \<and>
   effects (snd (unsubscribe streams r c)) =
     effects c @ [SocketSend \<lparr>req_method = UNSUBSCRIBE, req_params = Some streams,
                               req_id = requestId c\<rparr>]"
  using sendRequest_open [of c UNSUBSCRIBE "Some streams" r]
  by (auto simp: unsubscribe_def split: prod.splits sum.splits)

lemma idsIncreasing_sendRequest:
  "idsIncreasing c \<Longrightarrow> idsIncreasing (snd (sendRequest m ps r c))"
  by (auto simp: idsIncreasing_def sendRequest_def Let_def sentRequests_append sorted_wrt_append
      list_all_iff split: reply.splits)

lemma idsIncreasing_subscriptions_update [simp]:
  "idsIncreasing (c\<lparr>subscriptions := s\<rparr>) = idsIncreasing c"
  by (simp add: idsIncreasing_def)

lemma idsIncreasing_subscribe:
  "idsIncreasing c \<Longrightarrow> idsIncreasing (snd (subscribe streams r c))"
  using idsIncreasing_sendRequest [of c SUBSCRIBE "Some streams" r]
  by (auto simp: subscribe_def split: prod.splits sum.splits)

lemma idsIncreasing_unsubscribe:
  "idsIncreasing c \<Longrightarrow> idsIncreasing (snd (unsubscribe streams r c))"
  using idsIncreasing_sendRequest [of c UNSUBSCRIBE "Some streams" r]
  by (auto simp: unsubscribe_def split: prod.splits sum.splits)

lemma idsIncreasing_newClient: "idsIncreasing (newClient cfg handlers)"
  by (simp add: idsIncreasing_def newClient_def)

lemma card_union_le_lengths:
  "card (set xs \<union> set ys) \<le> length xs + length ys"
proof -
  have "card (set xs \<union> set ys) \<le> card (set xs) + card (set ys)"
    by (rule card_Un_le)
  also have "\<dots> \<le> length xs + length ys"
    by (intro add_mono card_length)
  finally show ?thesis .
qed

lemma subscribe_over_ceiling:
  "card (set (subscriptions c) \<union> set streams) > 1024 \<Longrightarrow>
   subscribe streams r c =
     (Inl (WebSocketError ''Cannot subscribe to more than 1024 streams'' None), c)"
  using card_union_le_lengths [of "subscriptions c" streams]
  by (simp add: subscribe_def MAX_SUBSCRIPTIONS_def)

lemma idsIncreasing_cong:
  "requestId c' = requestId c \<Longrightarrow> sentRequests (effects c') = sentRequests (effects c) \<Longrightarrow>
   idsIncreasing c' = idsIncreasing c"
  by (simp add: idsIncreasing_def)

lemma wire_handleError [simp]:
  "requestId (snd (handleError c)) = requestId c"
  "sentRequests (effects (snd (handleError c))) = sentRequests (effects c)"
  by (simp_all add: handleError_def Let_def)

lemma wire_on [simp]:
  "requestId (on name c) = requestId c"
  "sentRequests (effects (on name c)) = sentRequests (effects c)"
  by (simp_all add: on_def)

lemma wire_disconnect [simp]:
  "requestId (disconnect c) = requestId c"
  "sentRequests (effects (disconnect c)) = sentRequests (effects c)"
  by (simp_all add: disconnect_def clearTimers_def clearPongTimeout_def Let_def
      sentRequests_append)

lemma wire_handleStreamData [simp]:
  "requestId (handleStreamData d c) = requestId c"
  "sentRequests (effects (handleStreamData d c)) = sentRequests (effects c)"
  by (simp_all add: handleStreamData_def defaultCase_def split: jsvalue.splits option.splits)

lemma wire_handleMessage [simp]:
  "requestId (snd (handleMessage parse s c)) = requestId c"
  "sentRequests (effects (snd (handleMessage parse s c))) = sentRequests (effects c)"
  by (simp_all add: handleMessage_def split: option.splits)

lemma idsIncreasing_timer_update [simp]:
  "idsIncreasing (c\<lparr>reconnectTimeout := t\<rparr>) = idsIncreasing c"
  by (simp add: idsIncreasing_def)

lemma idsIncreasing_replay:
  "idsIncreasing c \<Longrightarrow> idsIncreasing (replaySubscriptions r c)"
  by (simp add: replaySubscriptions_def idsIncreasing_subscribe)

lemma idsIncreasing_reconnectTimerFired:
  assumes "idsIncreasing c"
  shows "idsIncreasing (reconnectTimerFired res r c)"
proof (cases "reconnectTimeout c")
  case None
  with assms show ?thesis by (simp add: reconnectTimerFired_def)
next
  case (Some delay)
  let ?c0 = "c\<lparr>reconnectTimeout := None\<rparr>"
  have 0: "idsIncreasing ?c0" using assms by simp
  have 1: "idsIncreasing (onSocketOpen (connect ?c0))"
    using 0 by (simp add: idsIncreasing_cong [of "onSocketOpen (connect ?c0)" ?c0])
  have 2: "idsIncreasing (snd (handleError (connect ?c0)))"
    using 0 by (simp add: idsIncreasing_cong [of "snd (handleError (connect ?c0))" ?c0])
  have 3: "idsIncreasing (handleClose code reason (snd (handleError (connect ?c0))))"
    for code reason
    using 0
    by (simp add: idsIncreasing_cong
        [of "handleClose code reason (snd (handleError (connect ?c0)))" ?c0])
  have 4: "idsIncreasing
      (case handleError (connect ?c0) of
         (Inr u, c1) \<Rightarrow> handleClose code reason c1
       | (Inl e, c1) \<Rightarrow> c1)" for code reason
    using 2 3 [of code reason]
    by (cases "handleError (connect ?c0)") (auto split: sum.splits)
  show ?thesis
    using Some 0 1 4
    by (auto simp: reconnectTimerFired_def onSocketError_def Let_def idsIncreasing_replay
        split: connectResult.splits)
qed

lemma idsIncreasing_perform:
  "idsIncreasing c \<Longrightarrow> idsIncreasing (perform parse ev c)"
proof (cases ev)
  case Connect
  then show "idsIncreasing c \<Longrightarrow> ?thesis"
    by (simp add: idsIncreasing_cong [of "connect c" c])
next
  case SocketOpened
  then show "idsIncreasing c \<Longrightarrow> ?thesis"
    by (simp add: idsIncreasing_cong [of "onSocketOpen c" c])
next
  case SocketError
  then show "idsIncreasing c \<Longrightarrow> ?thesis"
    by (simp add: onSocketError_def idsIncreasing_cong [of "snd (handleError c)" c])
next
  case (SocketClosed code reason)
  then show "idsIncreasing c \<Longrightarrow> ?thesis"
    by (simp add: idsIncreasing_cong [of "handleClose code reason c" c])
next
  case Disconnect
  then show "idsIncreasing c \<Longrightarrow> ?thesis"
    by (simp add: idsIncreasing_cong [of "disconnect c" c])
next
  case (Subscribe streams r)
  then show "idsIncreasing c \<Longrightarrow> ?thesis"
    by (simp add: idsIncreasing_subscribe)
next
  case (Unsubscribe streams r)
  then show "idsIncreasing c \<Longrightarrow> ?thesis"
    by (simp add: idsIncreasing_unsubscribe)
next
  case (Request m ps r)
  then show "idsIncreasing c \<Longrightarrow> ?thesis"
    by (simp add: idsIncreasing_sendRequest)
next
  case (ReconnectTimer res r)
  then show "idsIncreasing c \<Longrightarrow> ?thesis"
    by (simp add: idsIncreasing_reconnectTimerFired)
next
  case (Message s)
  then show "idsIncreasing c \<Longrightarrow> ?thesis"
    by (simp add: idsIncreasing_cong [of "snd (handleMessage parse s c)" c])
next
  case (On name)
  then show "idsIncreasing c \<Longrightarrow> ?thesis"
    by (simp add: idsIncreasing_cong [of "on name c" c])
qed

lemma idsIncreasing_history:
  "idsIncreasing c \<Longrightarrow> idsIncreasing (fold (perform parse) events c)"
  by (induction events arbitrary: c) (simp_all add: idsIncreasing_perform)

text \<open>
  C9 (as amended). Outside the state \<^verbatim>\<open>OPEN\<close>, \<^verbatim>\<open>subscribe\<close> and
  \<^verbatim>\<open>unsubscribe\<close> fail with a \<^verbatim>\<open>WebSocketError\<close> and leave the client as it is,
  nothing sent: the error is "WebSocket is not connected", unless the ceiling check of
  \<^verbatim>\<open>subscribe\<close>, which is made first, fails with "Cannot subscribe to more than 1024
  streams" (it does when the subscription count plus the number of requested streams
  is above 1024). A
  call that passes the checks is sent with the id \<^verbatim>\<open>requestId\<close>, which it increments:
  in every history of a client the ids of the requests sent are strictly increasing. A
  \<^verbatim>\<open>subscribe\<close> whose streams would push the subscription count above 1024 is
  rejected with that \<^verbatim>\<open>WebSocketError\<close>, the client unchanged and nothing sent.
\<close>

theorem subscribe_requires_open:
  "(state c \<noteq> OPEN \<longrightarrow>
      subscribe streams r c =
        (Inl (WebSocketError
           (if length (subscriptions c) + length streams > 1024
            then ''Cannot subscribe to more than 1024 streams''
            else ''WebSocket is not connected'') None), c) \<and>
      unsubscribe streams r c =
        (Inl (WebSocketError ''WebSocket is not connected'' None), c)) \<and>
   (state c = OPEN \<and> ws c \<and> length (subscriptions c) + length streams \<le> 1024 \<longrightarrow>
      requestId (snd (subscribe streams r c)) = requestId c + 1 \<and>
      effects (snd (subscribe streams r c)) =
        effects c @ [SocketSend \<lparr>req_method = SUBSCRIBE, req_params = Some streams,
                                  req_id = requestId c\<rparr>]) \<and>
   (state c = OPEN \<and> ws c \<longrightarrow>
      requestId (snd (unsubscribe streams r c)) = requestId c + 1 \<and>
      effects (snd (unsubscribe streams r c)) =
        effects c @ [SocketSend \<lparr>req_method = UNSUBSCRIBE, req_params = Some streams,
                                  req_id = requestId c\<rparr>]) \<and>
   idsIncreasing (fold (perform parse) events (newClient cfg handlers)) \<and>
   (idsIncreasing c \<longrightarrow>
      idsIncreasing (snd (subscribe streams r c)) \<and>
      idsIncreasing (snd (unsubscribe streams r c))) \<and>
   (card (set (subscriptions c) \<union> set streams) > 1024 \<longrightarrow>
      subscribe streams r c =
        (Inl (WebSocketError ''Cannot subscribe to more than 1024 streams'' None), c))"
  using subscribe_not_open [of c streams r] unsubscribe_not_open [of c streams r]
    subscribe_open [of c streams r] unsubscribe_open [of c streams r]
    idsIncreasing_subscribe [of c streams r] idsIncreasing_unsubscribe [of c streams r]
    idsIncreasing_history [OF idsIncreasing_newClient, of parse events cfg handlers]
    subscribe_over_ceiling [of c streams r]
  by blast

lemma length_streamNames [simp]: "length (streamNames n) = n"
  by (simp add: streamNames_def)

lemma distinct_streamNames [simp]: "distinct (streamNames n)"
proof -
  have "inj_on (\<lambda>k. replicate k CHR ''s'') A" for A :: "nat set"
    by (rule inj_onI) (metis length_replicate)
  then show ?thesis
    by (simp add: streamNames_def distinct_map)
qed

lemma card_streamNames [simp]: "card (set (streamNames n)) = n"
  using distinct_card [OF distinct_streamNames, of n] by simp

lemma idsIncreasing_openClient: "idsIncreasing openClient"
  by (simp add: idsIncreasing_def openClient_eq)

theorem subscribe_requires_open_witness:
  "state (newClient defaultConfig []) \<noteq> OPEN \<and>
   subscribe [''btcusdt@ticker''] (Result JNull) (newClient defaultConfig []) =
     (Inl (WebSocketError ''WebSocket is not connected'' None), newClient defaultConfig []) \<and>
   state openClient = OPEN \<and> ws openClient \<and>
   length (subscriptions openClient) + length [''btcusdt@ticker''] \<le> 1024 \<and>
   effects (snd (subscribe [''btcusdt@ticker''] (Result JNull) openClient)) =
     effects openClient @
       [SocketSend \<lparr>req_method = SUBSCRIBE, req_params = Some [''btcusdt@ticker''], req_id = 1\<rparr>] \<and>
   effects (snd (unsubscribe [''btcusdt@ticker''] (Result JNull) openClient)) =
     effects openClient @
       [SocketSend \<lparr>req_method = UNSUBSCRIBE, req_params = Some [''btcusdt@ticker''], req_id = 1\<rparr>] \<and>
   idsIncreasing openClient \<and>
   idsIncreasing (snd (subscribe [''btcusdt@ticker''] (Result JNull) openClient)) \<and>
   card (set (subscriptions openClient) \<union> set (streamNames 1025)) > 1024 \<and>
   fst (subscribe (streamNames 1025) (Result JNull) openClient) =
     Inl (WebSocketError ''Cannot subscribe to more than 1024 streams'' None)"
proof -
  have closed: "state (newClient defaultConfig []) \<noteq> OPEN"
    by (simp add: newClient_def)
  have op: "state openClient = OPEN" "ws openClient" "subscriptions openClient = []"
    "requestId openClient = 1"
    by (simp_all add: openClient_eq)
  have len: "length (subscriptions openClient) + length [''btcusdt@ticker''] \<le> 1024"
    by (simp add: op)
  have card: "card (set (subscriptions openClient) \<union> set (streamNames 1025)) > 1024"
    by (simp add: op)
  note t1 = subscribe_requires_open [where c = "newClient defaultConfig []"
      and streams = "[''btcusdt@ticker'']" and r = "Result JNull"]
  note t2 = subscribe_requires_open [where c = openClient
      and streams = "[''btcusdt@ticker'']" and r = "Result JNull"]
  note t3 = subscribe_requires_open [where c = openClient
      and streams = "streamNames 1025" and r = "Result JNull"]
  from t1 closed
  have a: "subscribe [''btcusdt@ticker''] (Result JNull) (newClient defaultConfig []) =
     (Inl (WebSocketError ''WebSocket is not connected'' None), newClient defaultConfig [])"
    by (simp add: newClient_def)
  from t2 op len
  have b: "effects (snd (subscribe [''btcusdt@ticker''] (Result JNull) openClient)) =
     effects openClient @
       [SocketSend \<lparr>req_method = SUBSCRIBE, req_params = Some [''btcusdt@ticker''], req_id = 1\<rparr>]"
    by simp
  from t2 op
  have b': "effects (snd (unsubscribe [''btcusdt@ticker''] (Result JNull) openClient)) =
     effects openClient @
       [SocketSend \<lparr>req_method = UNSUBSCRIBE, req_params = Some [''btcusdt@ticker''], req_id = 1\<rparr>]"
    by simp
  from t2 idsIncreasing_openClient
  have c: "idsIncreasing (snd (subscribe [''btcusdt@ticker''] (Result JNull) openClient))"
    by blast
  from t3 card
  have d: "fst (subscribe (streamNames 1025) (Result JNull) openClient) =
     Inl (WebSocketError ''Cannot subscribe to more than 1024 streams'' None)"
    by simp
  from closed a op(1,2) len b b' idsIncreasing_openClient c card d show ?thesis
    by blast
qed

text \<open>
  C9 as stated fails: on a client that is not connected, \<^verbatim>\<open>subscribe\<close> of
  1025 different streams fails with the ceiling's error, not with "not connected".
\<close>

theorem subscribe_not_connected_counterexample:
  "state (newClient defaultConfig []) = CLOSED \<and>
   distinct (streamNames 1025) \<and> length (streamNames 1025) = 1025 \<and>
   subscribe (streamNames 1025) (Result JNull) (newClient defaultConfig []) =
     (Inl (WebSocketError ''Cannot subscribe to more than 1024 streams'' None),
      newClient defaultConfig [])"
  by (simp add: subscribe_def newClient_def MAX_SUBSCRIPTIONS_def)

lemma length_le_if_subset:
  assumes "distinct xs" and "set xs \<subseteq> set ys"
  shows "length xs \<le> length ys"
proof -
  have "length xs = card (set xs)" using assms(1) by (simp add: distinct_card)
  also have "\<dots> \<le> card (set ys)" using assms(2) by (simp add: card_mono)
  also have "\<dots> \<le> length ys" by (rule card_length)
  finally show ?thesis .
qed

lemma resubscribe_rejected:
  assumes "distinct streams" and "set streams \<subseteq> set (subscriptions c)"
    and "1024 < 2 * length streams"
  shows "subscribe streams r c =
      (Inl (WebSocketError ''Cannot subscribe to more than 1024 streams'' None), c)"
    and "fold setAdd streams (subscriptions c) = subscriptions c"
proof -
  from assms(1,2) have "length streams \<le> length (subscriptions c)"
    by (rule length_le_if_subset)
  with assms(3) show "subscribe streams r c =
      (Inl (WebSocketError ''Cannot subscribe to more than 1024 streams'' None), c)"
    by (simp add: subscribe_def MAX_SUBSCRIPTIONS_def)
  from assms(2) show "fold setAdd streams (subscriptions c) = subscriptions c"
    by (rule fold_setAdd_subset)
qed

lemma replay_rejected:
  assumes "512 < length (subscriptions c)"
  shows "replaySubscriptions r c = c"
  using assms by (simp add: replaySubscriptions_def subscribe_def MAX_SUBSCRIPTIONS_def)

lemma replay_rejected_on_reconnect:
  assumes "512 < length (subscriptions c)" and "reconnectTimeout c = Some delay"
  shows "subscriptions (reconnectTimerFired Opened r c) = subscriptions c"
    and "sentRequests (effects (reconnectTimerFired Opened r c)) = sentRequests (effects c)"
    and "requestId (reconnectTimerFired Opened r c) = requestId c"
    and "state c = CLOSED \<Longrightarrow> state (reconnectTimerFired Opened r c) = OPEN"
proof -
  let ?c0 = "c\<lparr>reconnectTimeout := None\<rparr>"
  have 1: "replaySubscriptions r ?c0 = ?c0"
    using assms(1) by (simp add: replay_rejected)
  have 2: "replaySubscriptions r (onSocketOpen (connect ?c0)) = onSocketOpen (connect ?c0)"
    using assms(1) by (simp add: replay_rejected)
  have eq: "reconnectTimerFired Opened r c =
      (if state c = OPEN \<or> state c = CONNECTING then ?c0 else onSocketOpen (connect ?c0))"
    using assms(2) 1 2 by (simp add: reconnectTimerFired_def Let_def)
  show "subscriptions (reconnectTimerFired Opened r c) = subscriptions c"
    unfolding eq by simp
  show "sentRequests (effects (reconnectTimerFired Opened r c)) = sentRequests (effects c)"
    unfolding eq by simp
  show "requestId (reconnectTimerFired Opened r c) = requestId c"
    unfolding eq by simp
  show "state c = CLOSED \<Longrightarrow> state (reconnectTimerFired Opened r c) = OPEN"
    unfolding eq by simp
qed

text \<open>
  C10. The ceiling check adds the number of requested streams to the subscription count
  without regard to streams already subscribed: re-subscribing to \<open>N\<close> different
  streams that are all subscribed is rejected, nothing sent, whenever \<open>2 * N\<close> is above
  1024, although adding them would leave the set as it is. So when the reconnect timer
  of a closed connection with more than 512 subscriptions fires and the socket opens,
  the replay sends no request: the connection is \<^verbatim>\<open>OPEN\<close> with its subscription
  set unchanged and nothing subscribed on the new socket.
\<close>

theorem resubscribe_rejected_by_ceiling:
  "(distinct streams \<and> set streams \<subseteq> set (subscriptions c) \<and> 1024 < 2 * length streams \<longrightarrow>
      subscribe streams r c =
        (Inl (WebSocketError ''Cannot subscribe to more than 1024 streams'' None), c) \<and>
      fold setAdd streams (subscriptions c) = subscriptions c) \<and>
   (512 < length (subscriptions c) \<and> reconnectTimeout c = Some delay \<and> state c = CLOSED \<longrightarrow>
      state (reconnectTimerFired Opened r c) = OPEN \<and>
      subscriptions (reconnectTimerFired Opened r c) = subscriptions c \<and>
      sentRequests (effects (reconnectTimerFired Opened r c)) = sentRequests (effects c) \<and>
      requestId (reconnectTimerFired Opened r c) = requestId c)"
proof (intro conjI impI)
  assume h: "distinct streams \<and> set streams \<subseteq> set (subscriptions c) \<and> 1024 < 2 * length streams"
  then show "subscribe streams r c =
      (Inl (WebSocketError ''Cannot subscribe to more than 1024 streams'' None), c)"
    by (intro resubscribe_rejected(1)) simp_all
  from h show "fold setAdd streams (subscriptions c) = subscriptions c"
    by (intro resubscribe_rejected(2)) simp_all
next
  assume h: "512 < length (subscriptions c) \<and> reconnectTimeout c = Some delay \<and> state c = CLOSED"
  then have a: "512 < length (subscriptions c)" and b: "reconnectTimeout c = Some delay"
    and s: "state c = CLOSED" by simp_all
  show "state (reconnectTimerFired Opened r c) = OPEN"
    using a b s by (rule replay_rejected_on_reconnect(4))
  show "subscriptions (reconnectTimerFired Opened r c) = subscriptions c"
    using a b by (rule replay_rejected_on_reconnect(1))
  show "sentRequests (effects (reconnectTimerFired Opened r c)) = sentRequests (effects c)"
    using a b by (rule replay_rejected_on_reconnect(2))
  show "requestId (reconnectTimerFired Opened r c) = requestId c"
    using a b by (rule replay_rejected_on_reconnect(3))
qed

lemma subscribedClient_eq:
  assumes "distinct streams" and "length streams \<le> 1024"
  shows "subscribedClient cfg streams =
    \<lparr>ws = True, config = cfg, state = OPEN, subscriptions = streams, requestId = 2,
     pingIntervalTimer = True, pongTimeoutTimer = False, reconnectTimeout = None,
     reconnectAttempts = 0, eventHandlers = [], listeners = [],
     effects = [SocketNew, Emit ''open'' NoArgs,
       SocketSend \<lparr>req_method = SUBSCRIBE, req_params = Some streams, req_id = 1\<rparr>]\<rparr>"
proof -
  have "fold setAdd streams [] = streams"
    using fold_setAdd_fresh [OF assms(1), of "[]"] by simp
  with assms(2) show ?thesis
    by (simp add: subscribedClient_def onSocketOpen_def connect_def newClient_def emit_def
        callHandler_def startPingInterval_def subscribe_def sendRequest_def isConnected_def
        MAX_SUBSCRIPTIONS_def Let_def)
qed

lemma handleClose_subscribedClient:
  assumes "distinct streams" and "length streams \<le> 1024"
  shows "handleClose code reason (subscribedClient cfg streams) =
    \<lparr>ws = True, config = cfg, state = CLOSED, subscriptions = streams, requestId = 2,
     pingIntervalTimer = False, pongTimeoutTimer = False,
     reconnectTimeout =
       (if reconnect cfg \<and> 0 < maxReconnectAttempts cfg then Some (reconnectInterval cfg)
        else None),
     reconnectAttempts = (if reconnect cfg \<and> 0 < maxReconnectAttempts cfg then 1 else 0),
     eventHandlers = [], listeners = [],
     effects = [SocketNew, Emit ''open'' NoArgs,
       SocketSend \<lparr>req_method = SUBSCRIBE, req_params = Some streams, req_id = 1\<rparr>,
       Emit ''close'' (Closed code reason)]\<rparr>"
  by (simp add: subscribedClient_eq [OF assms] handleClose_def clearTimers_def
      clearPongTimeout_def emit_def callHandler_def scheduleReconnect_def Let_def)

theorem resubscribe_rejected_by_ceiling_witness:
  "distinct (streamNames 513) \<and>
   set (streamNames 513) \<subseteq>
     set (subscriptions (handleClose 1006 ''Abnormal closure''
       (subscribedClient defaultConfig (streamNames 513)))) \<and>
   1024 < 2 * length (streamNames 513) \<and>
   512 < length (subscriptions (handleClose 1006 ''Abnormal closure''
       (subscribedClient defaultConfig (streamNames 513)))) \<and>
   reconnectTimeout (handleClose 1006 ''Abnormal closure''
       (subscribedClient defaultConfig (streamNames 513))) = Some 5000 \<and>
   state (handleClose 1006 ''Abnormal closure''
       (subscribedClient defaultConfig (streamNames 513))) = CLOSED \<and>
   state (reconnectTimerFired Opened (Result JNull) (handleClose 1006 ''Abnormal closure''
       (subscribedClient defaultConfig (streamNames 513)))) = OPEN \<and>
   sentRequests (effects (reconnectTimerFired Opened (Result JNull)
       (handleClose 1006 ''Abnormal closure''
         (subscribedClient defaultConfig (streamNames 513))))) =
     [\<lparr>req_method = SUBSCRIBE, req_params = Some (streamNames 513), req_id = 1\<rparr>] \<and>
   fst (subscribe (streamNames 513) (Result JNull) (handleClose 1006 ''Abnormal closure''
       (subscribedClient defaultConfig (streamNames 513)))) =
     Inl (WebSocketError ''Cannot subscribe to more than 1024 streams'' None)"
proof -
  define c where "c = handleClose 1006 ''Abnormal closure''
       (subscribedClient defaultConfig (streamNames 513))"
  have c: "c = \<lparr>ws = True, config = defaultConfig, state = CLOSED,
     subscriptions = streamNames 513, requestId = 2,
     pingIntervalTimer = False, pongTimeoutTimer = False, reconnectTimeout = Some 5000,
     reconnectAttempts = 1, eventHandlers = [], listeners = [],
     effects = [SocketNew, Emit ''open'' NoArgs,
       SocketSend \<lparr>req_method = SUBSCRIBE, req_params = Some (streamNames 513), req_id = 1\<rparr>,
       Emit ''close'' (Closed 1006 ''Abnormal closure'')]\<rparr>"
    unfolding c_def
    by (subst handleClose_subscribedClient) (simp_all add: defaultConfig_def)
  have h1: "distinct (streamNames 513) \<and> set (streamNames 513) \<subseteq> set (subscriptions c) \<and>
      1024 < 2 * length (streamNames 513)"
    by (simp add: c)
  have h2: "512 < length (subscriptions c) \<and> reconnectTimeout c = Some 5000 \<and> state c = CLOSED"
    by (simp add: c)
  note t = resubscribe_rejected_by_ceiling [of "streamNames 513" c "Result JNull" 5000]
  from t h1 have a: "fst (subscribe (streamNames 513) (Result JNull) c) =
     Inl (WebSocketError ''Cannot subscribe to more than 1024 streams'' None)"
    by simp
  from t h2 have b: "state (reconnectTimerFired Opened (Result JNull) c) = OPEN"
    and "sentRequests (effects (reconnectTimerFired Opened (Result JNull) c)) =
      sentRequests (effects c)"
    by blast+
  then have d: "sentRequests (effects (reconnectTimerFired Opened (Result JNull) c)) =
     [\<lparr>req_method = SUBSCRIBE, req_params = Some (streamNames 513), req_id = 1\<rparr>]"
    by (simp add: c)
  from h1 h2 a b d show ?thesis
    unfolding c_def by blast
qed

subsection \<open>Reconnection and replay\<close>



lemma closed_fields [simp]:
  "state (emit n p (callHandler h q (clearTimers (c\<lparr>state := CLOSED\<rparr>)))) = CLOSED"
  "reconnectTimeout (emit n p (callHandler h q (clearTimers (c\<lparr>state := CLOSED\<rparr>)))) = None"
  "reconnectAttempts (emit n p (callHandler h q (clearTimers (c\<lparr>state := CLOSED\<rparr>)))) =
     reconnectAttempts c"
  "subscriptions (emit n p (callHandler h q (clearTimers (c\<lparr>state := CLOSED\<rparr>)))) =
     subscriptions c"
  "config (emit n p (callHandler h q (clearTimers (c\<lparr>state := CLOSED\<rparr>)))) = config c"
  by (simp_all add: clearTimers_def clearPongTimeout_def emit_def callHandler_def)

lemma config_handleClose [simp]: "config (handleClose code reason c) = config c"
  by (simp add: handleClose_def clearTimers_def clearPongTimeout_def emit_def callHandler_def
      scheduleReconnect_def Let_def)





lemma handleError_unlistened:
  assumes "''error'' \<notin> set (listeners c)"
  shows "handleError c = (Inl NetworkError, callHandler onError (Err NetworkError) c)"
  using assms by (simp add: handleError_def unhandledError_def callHandler_def Let_def)

lemma listeners_kept [simp]:
  "listeners (connect c) = listeners c"
  "listeners (handleClose code reason c) = listeners c"
  "listeners (emit name p c) = listeners c"
  "listeners (callHandler h p c) = listeners c"
  "listeners (c\<lparr>reconnectTimeout := t\<rparr>) = listeners c"
  by (simp_all add: connect_def handleClose_def clearTimers_def clearPongTimeout_def emit_def
      callHandler_def scheduleReconnect_def Let_def)


text \<open>
  Without a listener for \<^verbatim>\<open>error\<close> a failed attempt ends where
  \<^verbatim>\<open>handleError\<close> throws: the state stays \<^verbatim>\<open>CONNECTING\<close> and no further attempt is
  scheduled.
\<close>

lemma failed_attempt_unlistened:
  assumes "state c = CLOSED" and "reconnectTimeout c = Some delay"
    and "''error'' \<notin> set (listeners c)"
  shows "reconnectTimerFired (Failed code reason) r c =
     callHandler onError (Err NetworkError) (connect (c\<lparr>reconnectTimeout := None\<rparr>))"
    and "state (reconnectTimerFired (Failed code reason) r c) = CONNECTING"
    and "reconnectTimeout (reconnectTimerFired (Failed code reason) r c) = None"
proof -
  have "''error'' \<notin> set (listeners (connect (c\<lparr>reconnectTimeout := None\<rparr>)))"
    using assms(3) by simp
  from handleError_unlistened [OF this] assms(1,2)
  show eq: "reconnectTimerFired (Failed code reason) r c =
     callHandler onError (Err NetworkError) (connect (c\<lparr>reconnectTimeout := None\<rparr>))"
    by (simp add: reconnectTimerFired_def onSocketError_def Let_def)
  show "state (reconnectTimerFired (Failed code reason) r c) = CONNECTING"
    unfolding eq using assms(1) by (simp add: callHandler_def connect_def)
  show "reconnectTimeout (reconnectTimerFired (Failed code reason) r c) = None"
    unfolding eq using assms(1) by (simp add: callHandler_def connect_def)
qed

lemma attempt_fields [simp]:
  "config (emit ''error'' (Err NetworkError)
     (callHandler onError (Err NetworkError) (connect (c\<lparr>reconnectTimeout := None\<rparr>)))) = config c"
  "reconnectAttempts (emit ''error'' (Err NetworkError)
     (callHandler onError (Err NetworkError) (connect (c\<lparr>reconnectTimeout := None\<rparr>)))) =
     reconnectAttempts c"
  by (simp_all add: connect_def emit_def callHandler_def)








subsection \<open>Inbound frames\<close>


lemma whitespace_blank: "list_all isWhiteSpace s \<Longrightarrow> length (trim s) = 0"
  by (auto simp: trim_def dropWhile_eq_Nil_conv list_all_iff dest: set_dropWhileD)









lemma frames_not_blank:
  "\<not> (tradeFrame = [] \<or> length (trim tradeFrame) = 0)"
  "\<not> (bookTickerFrame = [] \<or> length (trim bookTickerFrame) = 0)"
  "\<not> (zeroUpdateFrame = [] \<or> length (trim zeroUpdateFrame) = 0)"
  "\<not> (replyFrame = [] \<or> length (trim replyFrame) = 0)"
  "\<not> (''invalid json'' = [] \<or> length (trim ''invalid json'') = 0)"
  by (simp_all add: tradeFrame_def bookTickerFrame_def zeroUpdateFrame_def replyFrame_def
      trim_def isWhiteSpace_def)

lemma sampleParse_frames:
  "sampleParse tradeFrame = Some tradeMessage"
  "sampleParse bookTickerFrame = Some bookTickerMessage"
  "sampleParse zeroUpdateFrame = Some zeroUpdateMessage"
  "sampleParse replyFrame = Some replyMessage"
  "sampleParse ''invalid json'' = None"
  by (simp_all add: sampleParse_def tradeFrame_def bookTickerFrame_def zeroUpdateFrame_def
      replyFrame_def)

lemma listeningClient_fields:
  "effects listeningClient = [SocketNew, Emit ''open'' NoArgs]"
  "eventHandlers listeningClient = [onTrade, onBookTicker, onError]"
  "listeners listeningClient = []"
  "state listeningClient = OPEN"
  by (simp_all add: listeningClient_def onSocketOpen_def connect_def newClient_def emit_def
      callHandler_def startPingInterval_def)




text \<open>
  A frame with no event type that carries \<^verbatim>\<open>u\<close>, \<^verbatim>\<open>s\<close>, \<^verbatim>\<open>b\<close> and
  \<^verbatim>\<open>a\<close>, the update id \<^verbatim>\<open>u\<close> being 0, goes to the catch-all \<^verbatim>\<open>data\<close> event;
  \<^verbatim>\<open>onBookTicker\<close>, though defined, is not called.
\<close>

lemma bookTicker_zero_update_id:
  "sampleParse zeroUpdateFrame = Some zeroUpdateMessage \<and>
   getProp zeroUpdateMessage ''e'' = JUndefined \<and>
   getProp zeroUpdateMessage ''u'' = JNum 0 \<and>
   getProp zeroUpdateMessage ''s'' = JStr ''BTCUSDT'' \<and>
   getProp zeroUpdateMessage ''b'' = JStr ''1'' \<and>
   getProp zeroUpdateMessage ''a'' = JStr ''2'' \<and>
   effects (snd (handleMessage sampleParse zeroUpdateFrame listeningClient)) =
     [SocketNew, Emit ''open'' NoArgs, Emit ''data'' (Data zeroUpdateMessage)]"
  using frames_not_blank sampleParse_frames
  by (simp add: handleMessage_def handleStreamData_def defaultCase_def eventTypeOf_def
      zeroUpdateMessage_def nullish_def emit_def callHandler_def listeningClient_fields)

end
